theory Spec2Isabelle
  imports Complex_Main "HOL-Library.List_Lexorder" "HOL-Library.Product_Lexorder"
begin

section \<open>The cards (types/poker)\<close>

text \<open>
  Modelled from the spec: \<open>Card\<close>, \<open>Rank\<close> and \<open>Suit\<close>, which the evaluator imports from
  \<open>../types/poker\<close>, a file that is not among the sources. A card has a rank, ace high,
  and a suit of four values (section 3). \<open>getRankValue\<close> lists the thirteen members of
  \<open>Rank\<close>; the four members of \<open>Suit\<close> are named after the suits. Both are string enums: a
  rank is cast from a property key (\<open>kicker as Rank\<close>) and a suit is compared with a
  string. A member is a constructor here, and its string value, on which the order of
  \<open>Object.keys\<close> and the descriptions depend, is a parameter of the evaluator: the record
  \<open>PokerTypes\<close>. Members are taken to have pairwise different, non-empty values, so that a
  property key stands for one member and a key that was found is truthy.
\<close>

datatype Rank = TWO | THREE | FOUR | FIVE | SIX | SEVEN | EIGHT | NINE | TEN
  | JACK | QUEEN | KING | ACE

datatype Suit = HEARTS | DIAMONDS | CLUBS | SPADES

record Card =
  rank :: Rank
  suit :: Suit

record PokerTypes =
  rankStr :: "Rank \<Rightarrow> string"
  suitStr :: "Suit \<Rightarrow> string"

text \<open>
  One declaration of the two enums, used wherever a closed statement needs one: the
  ranks print as on a card face, the suits as the UTF-8 bytes of the four suit symbols
  (PlayerHand compares \<open>card.suit\<close> with the heart and the diamond).
\<close>

fun faceRank :: "Rank \<Rightarrow> string" where
  "faceRank TWO = ''2''"
| "faceRank THREE = ''3''"
| "faceRank FOUR = ''4''"
| "faceRank FIVE = ''5''"
| "faceRank SIX = ''6''"
| "faceRank SEVEN = ''7''"
| "faceRank EIGHT = ''8''"
| "faceRank NINE = ''9''"
| "faceRank TEN = ''10''"
| "faceRank JACK = ''J''"
| "faceRank QUEEN = ''Q''"
| "faceRank KING = ''K''"
| "faceRank ACE = ''A''"

fun symbolSuit :: "Suit \<Rightarrow> string" where
  "symbolSuit HEARTS = [CHR 0xE2, CHR 0x99, CHR 0xA5]"
| "symbolSuit DIAMONDS = [CHR 0xE2, CHR 0x99, CHR 0xA6]"
| "symbolSuit CLUBS = [CHR 0xE2, CHR 0x99, CHR 0xA3]"
| "symbolSuit SPADES = [CHR 0xE2, CHR 0x99, CHR 0xA0]"

definition faceTypes :: PokerTypes where
  "faceTypes = \<lparr>rankStr = faceRank, suitStr = symbolSuit\<rparr>"

section \<open>JavaScript objects as ordered property lists\<close>

text \<open>
  \<open>Record<string, number>\<close> is an association list in the order the properties were
  created. \<open>Object.keys\<close> lists first the keys that are array indices (canonical decimal
  numerals below \<open>2^32 - 1\<close>) in ascending numeric order, then the other keys in the order
  of creation.
\<close>

definition digitOf :: "char \<Rightarrow> int option" where
  "digitOf c = map_of [(CHR ''0'', 0), (CHR ''1'', 1), (CHR ''2'', 2), (CHR ''3'', 3),
     (CHR ''4'', 4), (CHR ''5'', 5), (CHR ''6'', 6), (CHR ''7'', 7), (CHR ''8'', 8),
     (CHR ''9'', 9)] c"

fun digitsValue :: "int \<Rightarrow> string \<Rightarrow> int option" where
  "digitsValue acc [] = Some acc"
| "digitsValue acc (c # cs) =
     (case digitOf c of None \<Rightarrow> None | Some d \<Rightarrow> digitsValue (10 * acc + d) cs)"

definition arrayIndex :: "string \<Rightarrow> int option" where
  "arrayIndex s =
     (case s of
        [] \<Rightarrow> None
      | c # cs \<Rightarrow>
          if c = CHR ''0'' \<and> cs \<noteq> [] then None
          else (case digitsValue 0 s of
                  None \<Rightarrow> None
                | Some n \<Rightarrow> if n < 4294967295 then Some n else None))"

definition objectKeys :: "('k \<Rightarrow> string) \<Rightarrow> ('k \<times> nat) list \<Rightarrow> 'k list" where
  "objectKeys str props =
     (let ks = map fst props
      in sort_key (\<lambda>k. the (arrayIndex (str k))) (filter (\<lambda>k. arrayIndex (str k) \<noteq> None) ks)
         @ filter (\<lambda>k. arrayIndex (str k) = None) ks)"

text \<open>\<open>counts[key] = (counts[key] || 0) + 1\<close>: a new key goes last.\<close>

fun countUp :: "'k \<Rightarrow> ('k \<times> nat) list \<Rightarrow> ('k \<times> nat) list" where
  "countUp k [] = [(k, 1)]"
| "countUp k ((k', n) # ps) = (if k = k' then (k', n + 1) # ps else (k', n) # countUp k ps)"

text \<open>\<open>counts[key]\<close>: \<open>None\<close> is \<open>undefined\<close>, which equals no number and is not \<open>>= 5\<close>.\<close>

definition countAt :: "('k \<times> nat) list \<Rightarrow> 'k \<Rightarrow> nat option" where
  "countAt counts k = map_of counts k"

text \<open>\<open>[...new Set(xs)]\<close> keeps the first occurrence of each value.\<close>

fun newSet :: "'a list \<Rightarrow> 'a list" where
  "newSet [] = []"
| "newSet (x # xs) = x # filter (\<lambda>y. y \<noteq> x) (newSet xs)"

section \<open>Numbers\<close>

text \<open>
  A JavaScript number is an IEEE 754 double, and \<open>+\<close> and \<open>/\<close> return the double nearest
  to the exact result, a tie going to the even significand. The numbers of the evaluator
  are far from the largest double, so a double is modelled by the real that it holds:
  \<open>toDouble x\<close> is the double nearest to the real \<open>x\<close>, with 53 significant bits at the
  binary exponent \<open>binade x\<close> (not below that of the subnormal numbers). A decimal literal
  of the source, such as \<open>0.75\<close>, is written as the same literal and stands for the double
  nearest to it, which is what the source holds; \<open>jsAdd\<close> and \<open>jsDiv\<close> read their
  arguments as such and return the double of the result.
\<close>

function bitLength :: "int \<Rightarrow> int" where
  "bitLength n = (if n \<le> 0 then 0 else 1 + bitLength (n div 2))"
  by pat_completeness auto
termination
  by (relation "measure nat") auto

declare bitLength.simps [simp del]

definition binade :: "real \<Rightarrow> int" where
  "binade x =
     max (if 1 \<le> \<bar>x\<bar> then bitLength \<lfloor>\<bar>x\<bar>\<rfloor> - 1 else - bitLength (\<lceil>1 / \<bar>x\<bar>\<rceil> - 1)) (- 1022)"

definition roundHalfEven :: "real \<Rightarrow> int" where
  "roundHalfEven y =
     (let f = \<lfloor>y\<rfloor>; r = y - of_int f
      in if r < 1 / 2 then f else if 1 / 2 < r then f + 1 else if even f then f else f + 1)"

definition scaleBy :: "real \<Rightarrow> int \<Rightarrow> real" where
  "scaleBy x k = (if 0 \<le> k then x * 2 ^ nat k else x / 2 ^ nat (- k))"

definition toDouble :: "real \<Rightarrow> real" where
  "toDouble x = (let k = binade x - 52 in scaleBy (of_int (roundHalfEven (scaleBy x (- k)))) k)"

definition jsAdd :: "real \<Rightarrow> real \<Rightarrow> real" where
  "jsAdd a b = toDouble (toDouble a + toDouble b)"

definition jsDiv :: "real \<Rightarrow> real \<Rightarrow> real" where
  "jsDiv a b = toDouble (toDouble a / toDouble b)"

section \<open>The hand evaluator (utils/handEvaluator.ts)\<close>

record HandEvaluation =
  handType :: string
  handRank :: nat
  kickers :: "Rank list"
  description :: string
  strength :: real

text \<open>
  The source has no \<open>throw\<close>; what can fail at run time is reading \<open>.rank\<close> or \<open>.value\<close>
  of \<open>xs[0]\<close> when \<open>xs\<close> is empty, a \<open>TypeError\<close>. A check returns the evaluation,
  \<open>null\<close> (\<open>None\<close>) or that error.
\<close>

datatype JsError = TypeError

type_synonym checked = "JsError + HandEvaluation option"

fun getRankValue :: "Rank \<Rightarrow> int" where
  "getRankValue TWO = 2"
| "getRankValue THREE = 3"
| "getRankValue FOUR = 4"
| "getRankValue FIVE = 5"
| "getRankValue SIX = 6"
| "getRankValue SEVEN = 7"
| "getRankValue EIGHT = 8"
| "getRankValue NINE = 9"
| "getRankValue TEN = 10"
| "getRankValue JACK = 11"
| "getRankValue QUEEN = 12"
| "getRankValue KING = 13"
| "getRankValue ACE = 14"

text \<open>\<open>Object.values(Rank)\<close>, the members in the order of \<open>getRankValue\<close>'s table.\<close>

definition rankMembers :: "Rank list" where
  "rankMembers = [TWO, THREE, FOUR, FIVE, SIX, SEVEN, EIGHT, NINE, TEN, JACK, QUEEN, KING, ACE]"

text \<open>
  \<open>xs.sort((a, b) => getRankValue(b) - getRankValue(a))\<close>: the sort of an array is
  stable, and so is \<open>sort_key\<close>; the key is the negated value, for descending order.
\<close>

definition sortByRankDesc :: "('a \<Rightarrow> Rank) \<Rightarrow> 'a list \<Rightarrow> 'a list" where
  "sortByRankDesc r xs = sort_key (\<lambda>x. - getRankValue (r x)) xs"

definition getRankCounts :: "Card list \<Rightarrow> (Rank \<times> nat) list" where
  "getRankCounts cards = foldl (\<lambda>counts card. countUp (rank card) counts) [] cards"

definition getSuitCounts :: "Card list \<Rightarrow> (Suit \<times> nat) list" where
  "getSuitCounts cards = foldl (\<lambda>counts card. countUp (suit card) counts) [] cards"

text \<open>
  A rank is a string at run time, and a string has no property \<open>value\<close>: the template
  \<open>${highCard.value}\<close> prints \<open>undefined\<close>, and \<open>highCard?.value || 'Unknown'\<close> is
  \<open>'Unknown'\<close>.
\<close>

definition checkFlush :: "PokerTypes \<Rightarrow> Card list \<Rightarrow> checked" where
  "checkFlush T cards =
     (let suitCounts = getSuitCounts cards;
          flushSuit = find (\<lambda>s. case countAt suitCounts s of None \<Rightarrow> False | Some n \<Rightarrow> 5 \<le> n)
                        (objectKeys (suitStr T) suitCounts)
      in case flushSuit of
           None \<Rightarrow> Inr None
         | Some fs \<Rightarrow>
             (case filter (\<lambda>card. suit card = fs) cards of
                [] \<Rightarrow> Inl TypeError
              | c # _ \<Rightarrow>
                  Inr (Some \<lparr>handType = ''Flush'', handRank = 6, kickers = [rank c],
                    description = ''Flush, undefined high'', strength = 0.75\<rparr>)))"

text \<open>
  The outer loop of \<open>checkStraight\<close> runs \<open>i\<close> from 0 while \<open>i <= length - 5\<close>; the
  inner loop compares \<open>uniqueRanks[i + j]\<close> with \<open>uniqueRanks[i] - j\<close> for \<open>j\<close> from 1 to 4.
  The recursion is on the rest of the array from \<open>i\<close> on; the result is \<open>uniqueRanks[i]\<close>
  of the first \<open>i\<close> that is consecutive.
\<close>

definition consecutive :: "int list \<Rightarrow> bool" where
  "consecutive us = list_all (\<lambda>j. us ! j = us ! 0 - int j) [1, 2, 3, 4]"

fun straightFrom :: "int list \<Rightarrow> int option" where
  "straightFrom [] = None"
| "straightFrom (u # us) =
     (if 5 \<le> length (u # us)
      then (if consecutive (u # us) then Some u else straightFrom us)
      else None)"

definition checkStraight :: "Card list \<Rightarrow> HandEvaluation option" where
  "checkStraight cards =
     (let uniqueRanks = sort_key (\<lambda>v. - v) (newSet (map (\<lambda>card. getRankValue (rank card)) cards))
      in case straightFrom uniqueRanks of
           Some high \<Rightarrow>
             (let highCard = find (\<lambda>r. getRankValue r = high) rankMembers
              in Some \<lparr>handType = ''Straight'', handRank = 5,
                   kickers = (case highCard of Some h \<Rightarrow> [h] | None \<Rightarrow> []),
                   description = ''Straight, Unknown high'', strength = 0.65\<rparr>)
         | None \<Rightarrow>
             if 14 \<in> set uniqueRanks \<and> 2 \<in> set uniqueRanks \<and> 3 \<in> set uniqueRanks
                \<and> 4 \<in> set uniqueRanks \<and> 5 \<in> set uniqueRanks
             then Some \<lparr>handType = ''Straight'', handRank = 5, kickers = [FIVE],
                    description = ''Straight, Five high (Wheel)'', strength = 0.6\<rparr>
             else None)"

definition checkStraightFlush :: "PokerTypes \<Rightarrow> Card list \<Rightarrow> checked" where
  "checkStraightFlush T cards =
     (case checkFlush T cards of
        Inl e \<Rightarrow> Inl e
      | Inr flush \<Rightarrow>
          (let straight = checkStraight cards
           in if flush \<noteq> None \<and> straight \<noteq> None
              then (case cards of
                      [] \<Rightarrow> Inl TypeError
                    | c # _ \<Rightarrow>
                        (let highCard = rank c; isRoyal = (getRankValue highCard = 14)
                         in Inr (Some \<lparr>handType = (if isRoyal then ''Royal Flush'' else ''Straight Flush''),
                              handRank = (if isRoyal then 10 else 9),
                              kickers = [highCard],
                              description = (if isRoyal then ''Royal Flush''
                                             else ''Straight Flush, undefined high''),
                              strength = (if isRoyal then 1.0 else 0.95)\<rparr>)))
              else Inr None))"

definition checkFourOfAKind :: "PokerTypes \<Rightarrow> Card list \<Rightarrow> HandEvaluation option" where
  "checkFourOfAKind T cards =
     (let rankCounts = getRankCounts cards;
          ks = objectKeys (rankStr T) rankCounts;
          fourOfAKindRank = find (\<lambda>r. countAt rankCounts r = Some 4) ks
      in case fourOfAKindRank of
           None \<Rightarrow> None
         | Some four \<Rightarrow>
             (let kicker = find (\<lambda>r. r \<noteq> four \<and> countAt rankCounts r = Some 1) ks
              in Some \<lparr>handType = ''Four of a Kind'', handRank = 8,
                   kickers = (case kicker of Some k \<Rightarrow> [k] | None \<Rightarrow> []),
                   description = ''Four '' @ rankStr T four @ ''s'', strength = 0.9\<rparr>))"

definition checkFullHouse :: "PokerTypes \<Rightarrow> Card list \<Rightarrow> HandEvaluation option" where
  "checkFullHouse T cards =
     (let rankCounts = getRankCounts cards;
          ks = objectKeys (rankStr T) rankCounts;
          threeOfAKindRank = find (\<lambda>r. countAt rankCounts r = Some 3) ks;
          pairRank = find (\<lambda>r. countAt rankCounts r = Some 2) ks
      in case (threeOfAKindRank, pairRank) of
           (Some three, Some pair) \<Rightarrow>
             Some \<lparr>handType = ''Full House'', handRank = 7, kickers = [three, pair],
               description = ''Full House, '' @ rankStr T three @ ''s over '' @ rankStr T pair @ ''s'',
               strength = 0.85\<rparr>
         | _ \<Rightarrow> None)"

definition checkThreeOfAKind :: "PokerTypes \<Rightarrow> Card list \<Rightarrow> HandEvaluation option" where
  "checkThreeOfAKind T cards =
     (let rankCounts = getRankCounts cards;
          ks = objectKeys (rankStr T) rankCounts;
          threeOfAKindRank = find (\<lambda>r. countAt rankCounts r = Some 3) ks
      in case threeOfAKindRank of
           None \<Rightarrow> None
         | Some three \<Rightarrow>
             Some \<lparr>handType = ''Three of a Kind'', handRank = 4,
               kickers = take 2 (sortByRankDesc id
                 (filter (\<lambda>r. r \<noteq> three \<and> countAt rankCounts r = Some 1) ks)),
               description = ''Three '' @ rankStr T three @ ''s'', strength = 0.55\<rparr>)"

definition checkTwoPair :: "PokerTypes \<Rightarrow> Card list \<Rightarrow> HandEvaluation option" where
  "checkTwoPair T cards =
     (let rankCounts = getRankCounts cards;
          ks = objectKeys (rankStr T) rankCounts;
          pairs = filter (\<lambda>r. countAt rankCounts r = Some 2) ks
      in if 2 \<le> length pairs
         then (let sortedPairs = sortByRankDesc id pairs;
                   kicker = find (\<lambda>r. countAt rankCounts r = Some 1) ks
               in Some \<lparr>handType = ''Two Pair'', handRank = 3,
                    kickers = (case kicker of Some k \<Rightarrow> [k] | None \<Rightarrow> []),
                    description = ''Two Pair, '' @ rankStr T (sortedPairs ! 0) @ ''s and ''
                      @ rankStr T (sortedPairs ! 1) @ ''s'',
                    strength = 0.45\<rparr>)
         else None)"

definition checkPair :: "PokerTypes \<Rightarrow> Card list \<Rightarrow> HandEvaluation option" where
  "checkPair T cards =
     (let rankCounts = getRankCounts cards;
          ks = objectKeys (rankStr T) rankCounts;
          pairRank = find (\<lambda>r. countAt rankCounts r = Some 2) ks
      in case pairRank of
           None \<Rightarrow> None
         | Some pair \<Rightarrow>
             Some \<lparr>handType = ''Pair'', handRank = 2,
               kickers = take 3 (sortByRankDesc id
                 (filter (\<lambda>r. r \<noteq> pair \<and> countAt rankCounts r = Some 1) ks)),
               description = ''Pair of '' @ rankStr T pair @ ''s'',
               strength = jsAdd 0.3 (jsDiv (real_of_int (getRankValue pair)) 100)\<rparr>)"

definition checkHighCard :: "Card list \<Rightarrow> JsError + HandEvaluation" where
  "checkHighCard cards =
     (let sortedRanks = take 5 (sortByRankDesc id (map rank cards))
      in case sortedRanks of
           [] \<Rightarrow> Inl TypeError
         | first # _ \<Rightarrow>
             Inr \<lparr>handType = ''High Card'', handRank = 1, kickers = sortedRanks,
               description = ''High Card, undefined'',
               strength = jsAdd 0.1 (jsDiv (real_of_int (getRankValue first)) 200)\<rparr>)"

text \<open>
  \<open>a || b || ... || final\<close>: the first check that is not \<open>null\<close>; an error of a check
  ends the evaluation.
\<close>

fun firstOf :: "checked list \<Rightarrow> JsError + HandEvaluation \<Rightarrow> JsError + HandEvaluation" where
  "firstOf [] final = final"
| "firstOf (Inl e # cs) final = Inl e"
| "firstOf (Inr (Some h) # cs) final = Inr h"
| "firstOf (Inr None # cs) final = firstOf cs final"

definition incompleteHand :: HandEvaluation where
  "incompleteHand = \<lparr>handType = ''High Card'', handRank = 1, kickers = [],
     description = ''Incomplete hand'', strength = 0.1\<rparr>"

definition evaluateHand :: "PokerTypes \<Rightarrow> Card list \<Rightarrow> JsError + HandEvaluation" where
  "evaluateHand T cards =
     (if length cards < 5 then Inr incompleteHand
      else (let sortedCards = sortByRankDesc rank cards
            in firstOf
                 [checkStraightFlush T sortedCards,
                  Inr (checkFourOfAKind T sortedCards),
                  Inr (checkFullHouse T sortedCards),
                  checkFlush T sortedCards,
                  Inr (checkStraight sortedCards),
                  Inr (checkThreeOfAKind T sortedCards),
                  Inr (checkTwoPair T sortedCards),
                  Inr (checkPair T sortedCards)]
                 (checkHighCard sortedCards)))"

text \<open>How often a key (a rank, a suit) occurs among the cards.\<close>

definition occurrences :: "('a \<Rightarrow> 'k) \<Rightarrow> 'k \<Rightarrow> 'a list \<Rightarrow> nat" where
  "occurrences f k xs = length (filter (\<lambda>x. f x = k) xs)"

text \<open>The hands of the examples.\<close>

definition cardOf :: "Rank \<Rightarrow> Suit \<Rightarrow> Card" where
  "cardOf r s = \<lparr>rank = r, suit = s\<rparr>"

definition twoPairHand :: "Card list" where
  "twoPairHand = [cardOf ACE HEARTS, cardOf NINE HEARTS, cardOf NINE CLUBS, cardOf SEVEN HEARTS,
     cardOf SIX HEARTS, cardOf SIX CLUBS, cardOf JACK SPADES]"

definition fourSpades :: "Card list" where
  "fourSpades = [cardOf ACE SPADES, cardOf KING SPADES, cardOf QUEEN SPADES, cardOf JACK SPADES]"

definition wheelClubs :: "Card list" where
  "wheelClubs = [cardOf ACE CLUBS, cardOf TWO CLUBS, cardOf THREE CLUBS, cardOf FOUR CLUBS,
     cardOf FIVE CLUBS]"

definition fullHouseHand :: "Card list" where
  "fullHouseHand = [cardOf TWO CLUBS, cardOf TWO DIAMONDS, cardOf TWO HEARTS, cardOf FIVE SPADES,
     cardOf FIVE CLUBS, cardOf NINE HEARTS, cardOf KING DIAMONDS]"

definition twoTripsHand :: "Card list" where
  "twoTripsHand = [cardOf TWO CLUBS, cardOf TWO DIAMONDS, cardOf TWO HEARTS, cardOf FIVE SPADES,
     cardOf FIVE CLUBS, cardOf FIVE HEARTS, cardOf KING DIAMONDS]"

definition brokenRoyal :: "Card list" where
  "brokenRoyal = [cardOf ACE HEARTS, cardOf KING HEARTS, cardOf QUEEN HEARTS, cardOf JACK HEARTS,
     cardOf NINE HEARTS, cardOf TEN CLUBS, cardOf TWO DIAMONDS]"

definition aceOverNineHigh :: "Card list" where
  "aceOverNineHigh = [cardOf ACE HEARTS, cardOf NINE HEARTS, cardOf EIGHT HEARTS,
     cardOf SEVEN HEARTS, cardOf SIX HEARTS, cardOf FIVE HEARTS]"

definition pairHand :: "Card list" where
  "pairHand = [cardOf ACE HEARTS, cardOf NINE HEARTS, cardOf NINE CLUBS, cardOf SEVEN HEARTS,
     cardOf TWO HEARTS, cardOf SIX CLUBS, cardOf JACK SPADES]"

definition pairOfThrees :: "Card list" where
  "pairOfThrees = [cardOf THREE HEARTS, cardOf THREE DIAMONDS, cardOf NINE CLUBS,
     cardOf SEVEN SPADES, cardOf FIVE HEARTS]"

definition tenHigh :: "Card list" where
  "tenHigh = [cardOf TEN HEARTS, cardOf EIGHT DIAMONDS, cardOf SEVEN CLUBS, cardOf FIVE SPADES,
     cardOf THREE HEARTS]"

text \<open>The highest rank value among the cards.\<close>

definition highestRankValue :: "Card list \<Rightarrow> int" where
  "highestRankValue cards = Max (set (map (\<lambda>card. getRankValue (rank card)) cards))"

text \<open>
  The spec's condition for a straight flush, in its own words: a suit with five
  consecutive ranks within that suit. The ace also counts as the rank below the two, as
  in the wheel.
\<close>

definition suitHolds :: "Card list \<Rightarrow> Suit \<Rightarrow> int \<Rightarrow> bool" where
  "suitHolds cards s v =
     list_ex (\<lambda>card. suit card = s \<and> (getRankValue (rank card) = v \<or> (v = 1 \<and> rank card = ACE)))
       cards"

definition specStraightFlush :: "Card list \<Rightarrow> bool" where
  "specStraightFlush cards =
     list_ex (\<lambda>s. list_ex (\<lambda>high. list_all (\<lambda>j. suitHolds cards s (high - j)) [0, 1, 2, 3, 4])
                    [5, 6, 7, 8, 9, 10, 11, 12, 13, 14])
       [HEARTS, DIAMONDS, CLUBS, SPADES]"

subsection \<open>The arrays of a call\<close>

text \<open>
  \<open>evaluateHand\<close> is given a reference to an array of cards. The store holds the arrays
  of cards by address. The source reads no clock, no random number and no variable
  outside its functions, so the store is all the state that a call can read or change;
  it never assigns to a field of a card. Among the arrays of cards, \<open>[...cards]\<close> and
  \<open>cards.filter\<close> make a new array, and \<open>sort\<close> sorts the array it is called on, in
  place, and returns it. The arrays of ranks, of numbers and of keys that a check builds
  (\<open>Object.keys\<close>, \<open>map\<close>, \<open>new Set\<close>) are new in every call and are dropped when the check
  returns: they stay values of the check.
\<close>

type_synonym Store = "Card list list"

definition newArray :: "Card list \<Rightarrow> Store \<Rightarrow> nat \<times> Store" where
  "newArray xs st = (length st, st @ [xs])"

definition spread :: "nat \<Rightarrow> Store \<Rightarrow> nat \<times> Store" where
  "spread a st = newArray (st ! a) st"

definition sortInPlace :: "nat \<Rightarrow> Store \<Rightarrow> nat \<times> Store" where
  "sortInPlace a st = (a, st[a := sortByRankDesc rank (st ! a)])"

definition filterArray :: "(Card \<Rightarrow> bool) \<Rightarrow> nat \<Rightarrow> Store \<Rightarrow> nat \<times> Store" where
  "filterArray P a st = newArray (filter P (st ! a)) st"

text \<open>A check that only reads the array at \<open>a\<close>.\<close>

definition reading :: "(Card list \<Rightarrow> 'r) \<Rightarrow> nat \<Rightarrow> Store \<Rightarrow> 'r \<times> Store" where
  "reading f a st = (f (st ! a), st)"

definition checkFlushAt :: "PokerTypes \<Rightarrow> nat \<Rightarrow> Store \<Rightarrow> checked \<times> Store" where
  "checkFlushAt T cards st =
     (let suitCounts = getSuitCounts (st ! cards);
          flushSuit = find (\<lambda>s. case countAt suitCounts s of None \<Rightarrow> False | Some n \<Rightarrow> 5 \<le> n)
                        (objectKeys (suitStr T) suitCounts)
      in case flushSuit of
           None \<Rightarrow> (Inr None, st)
         | Some fs \<Rightarrow>
             (let (flushCards, st1) = filterArray (\<lambda>card. suit card = fs) cards st
              in case st1 ! flushCards of
                   [] \<Rightarrow> (Inl TypeError, st1)
                 | c # _ \<Rightarrow>
                     (Inr (Some \<lparr>handType = ''Flush'', handRank = 6, kickers = [rank c],
                        description = ''Flush, undefined high'', strength = 0.75\<rparr>), st1)))"

definition checkStraightFlushAt :: "PokerTypes \<Rightarrow> nat \<Rightarrow> Store \<Rightarrow> checked \<times> Store" where
  "checkStraightFlushAt T cards st =
     (case checkFlushAt T cards st of
        (Inl e, st1) \<Rightarrow> (Inl e, st1)
      | (Inr flush, st1) \<Rightarrow>
          (let (straight, st2) = reading checkStraight cards st1
           in if flush \<noteq> None \<and> straight \<noteq> None
              then (case st2 ! cards of
                      [] \<Rightarrow> (Inl TypeError, st2)
                    | c # _ \<Rightarrow>
                        (let highCard = rank c; isRoyal = (getRankValue highCard = 14)
                         in (Inr (Some \<lparr>handType = (if isRoyal then ''Royal Flush'' else ''Straight Flush''),
                              handRank = (if isRoyal then 10 else 9),
                              kickers = [highCard],
                              description = (if isRoyal then ''Royal Flush''
                                             else ''Straight Flush, undefined high''),
                              strength = (if isRoyal then 1.0 else 0.95)\<rparr>), st2)))
              else (Inr None, st2)))"

text \<open>The chain \<open>a || b || ... || final\<close>, each check run in the store that the one before left.\<close>

fun firstOfAt ::
  "(Store \<Rightarrow> checked \<times> Store) list \<Rightarrow> (Store \<Rightarrow> (JsError + HandEvaluation) \<times> Store)
    \<Rightarrow> Store \<Rightarrow> (JsError + HandEvaluation) \<times> Store" where
  "firstOfAt [] final st = final st"
| "firstOfAt (c # cs) final st =
     (case c st of
        (Inl e, st1) \<Rightarrow> (Inl e, st1)
      | (Inr (Some h), st1) \<Rightarrow> (Inr h, st1)
      | (Inr None, st1) \<Rightarrow> firstOfAt cs final st1)"

definition evaluateHandAt ::
  "PokerTypes \<Rightarrow> nat \<Rightarrow> Store \<Rightarrow> (JsError + HandEvaluation) \<times> Store" where
  "evaluateHandAt T cards st =
     (if length (st ! cards) < 5 then (Inr incompleteHand, st)
      else (let (copy, st1) = spread cards st;
                (sortedCards, st2) = sortInPlace copy st1
            in firstOfAt
                 [checkStraightFlushAt T sortedCards,
                  reading (\<lambda>cs. Inr (checkFourOfAKind T cs)) sortedCards,
                  reading (\<lambda>cs. Inr (checkFullHouse T cs)) sortedCards,
                  checkFlushAt T sortedCards,
                  reading (\<lambda>cs. Inr (checkStraight cs)) sortedCards,
                  reading (\<lambda>cs. Inr (checkThreeOfAKind T cs)) sortedCards,
                  reading (\<lambda>cs. Inr (checkTwoPair T cs)) sortedCards,
                  reading (\<lambda>cs. Inr (checkPair T cs)) sortedCards]
                 (reading checkHighCard sortedCards) st2))"

text \<open>
  A computation in the store that returns what the function \<open>p\<close> returns on the content
  of the array at \<open>a\<close>, and that leaves every array of the store as it is: it only adds
  arrays.
\<close>

definition readsOnly :: "nat \<Rightarrow> (Store \<Rightarrow> 'r \<times> Store) \<Rightarrow> (Card list \<Rightarrow> 'r) \<Rightarrow> bool" where
  "readsOnly a c p \<longleftrightarrow>
     (\<forall>st. a < length st \<longrightarrow> fst (c st) = p (st ! a) \<and> (\<exists>new. snd (c st) = st @ new))"

section \<open>The raise button (components/ActionButtons.tsx)\<close>

text \<open>
  Modelled from the spec: \<open>PlayerAction\<close> of \<open>types/poker\<close> (missing from the sources),
  with the four actions of section 6 that the component names.
\<close>

datatype PlayerAction = FOLD | CHECK | CALL | RAISE

text \<open>
  The component's properties \<open>currentBet\<close> and \<open>playerChips\<close> and its state
  \<open>raiseAmount\<close> are numbers; chips are whole numbers, on which the arithmetic of the
  source is that of the integers (a double holds every whole number up to \<open>2 ^ 53\<close>, and
  the bet on the table is not negative). \<open>handleRaise\<close> passes the action and the amount
  to \<open>onAction\<close>.
\<close>

definition minRaise :: "int \<Rightarrow> int" where
  "minRaise currentBet = max (currentBet * 2) (currentBet + 50)"

definition maxRaise :: "int \<Rightarrow> int" where
  "maxRaise playerChips = playerChips"

definition handleRaise :: "int \<Rightarrow> int \<Rightarrow> int \<Rightarrow> PlayerAction \<times> int" where
  "handleRaise currentBet playerChips raiseAmount =
     (let amount = min (max raiseAmount (minRaise currentBet)) (maxRaise playerChips)
      in (RAISE, amount))"

section \<open>The betting state machine (utils/gameEngine)\<close>

text \<open>
  \<open>App.tsx\<close> imports \<open>GameEngine\<close> from \<open>./utils/gameEngine\<close> and calls its
  \<open>processPlayerAction\<close>; the engine itself is not among the sources. What follows is
  written from sections 3, 4.2, 6 and 7 of the specification.
\<close>

text \<open>Modelled from the spec: the phases of a hand, PREFLOP to SHOWDOWN (section 4.2);
  the declaration in \<open>types/poker\<close> is missing.\<close>

datatype Phase = PREFLOP | FLOP | TURN | RIVER | SHOWDOWN

text \<open>Modelled from the spec: the error kinds of section 7; the engine's own errors are
  missing.\<close>

datatype EngineError = InvalidAction | InsufficientFunds | NotPlayersTurn | InsufficientCards

text \<open>Modelled from the spec: the Player of section 3 (missing from the sources). \<open>bet\<close>
  is the player's \<open>currentBet\<close>, the position is the index in the list of players, and
  \<open>hasActed\<close> records "has acted at least once since the last raise" (section 4.2).\<close>

record Player =
  name :: string
  chips :: int
  holeCards :: "Card list"
  bet :: int
  isActive :: bool
  isBot :: bool
  hasActed :: bool

text \<open>Modelled from the spec: the GameState of section 3 (missing from the sources), with
  the cards still to be dealt and the flag that \<open>isGameComplete\<close> reads.\<close>

record GameState =
  players :: "Player list"
  communityCards :: "Card list"
  deck :: "Card list"
  pot :: int
  currentBet :: int
  phase :: Phase
  activePlayerIndex :: nat
  handNumber :: nat
  handComplete :: bool

text \<open>Modelled from the spec: what section 4.2 leaves to the engine, the
  \<open>minimumIncrement\<close> of a raise and the hand evaluator called at showdown.\<close>

record Rules =
  minimumIncrement :: int
  evaluate :: "Card list \<Rightarrow> HandEvaluation"

text \<open>Modelled from the spec: the quantity of the invariant of section 3,
  \<open>sum(player.chips) + pot\<close>.\<close>

definition chipsInPlay :: "GameState \<Rightarrow> int" where
  "chipsInPlay s = sum_list (map chips (players s)) + pot s"

text \<open>Modelled from the spec: the current player, the one \<open>activePlayerIndex\<close> refers to.\<close>

definition currentPlayer :: "GameState \<Rightarrow> Player" where
  "currentPlayer s = players s ! activePlayerIndex s"

text \<open>Modelled from the spec: a change of the current player's entry.\<close>

definition updateCurrent :: "(Player \<Rightarrow> Player) \<Rightarrow> GameState \<Rightarrow> GameState" where
  "updateCurrent f s = s\<lparr>players := (players s)[activePlayerIndex s := f (currentPlayer s)]\<rparr>"

text \<open>Modelled from the spec: \<open>getAvailableActions\<close> of section 6 (missing from the
  sources). CHECK iff no outstanding bet; CALL iff the outstanding bet is greater than the
  player's current bet and the player has chips; RAISE iff the player has chips beyond the
  call amount; FOLD whenever the hand is not complete.\<close>

definition getAvailableActions :: "GameState \<Rightarrow> PlayerAction list" where
  "getAvailableActions s =
     (if handComplete s then []
      else (let p = currentPlayer s
            in [FOLD]
               @ (if bet p = currentBet s then [CHECK] else [])
               @ (if bet p < currentBet s \<and> 0 < chips p then [CALL] else [])
               @ (if currentBet s - bet p < chips p then [RAISE] else [])))"

text \<open>Modelled from the spec: chips move from the current player to the pot ("chips only
  move between players and pot", section 3).\<close>

definition moveToPot :: "int \<Rightarrow> GameState \<Rightarrow> GameState" where
  "moveToPot n s =
     (updateCurrent (\<lambda>p. p\<lparr>chips := chips p - n, bet := bet p + n\<rparr>) s)\<lparr>pot := pot s + n\<rparr>"

text \<open>Modelled from the spec: the positions of the players with \<open>isActive == true\<close>, in
  the order of the table.\<close>

definition activePlayers :: "GameState \<Rightarrow> nat list" where
  "activePlayers s = filter (\<lambda>i. isActive (players s ! i)) [0..<length (players s)]"

text \<open>Modelled from the spec: "\<open>activePlayerIndex\<close> advances to the next player with
  \<open>isActive == true\<close>, wrapping around the table" (section 4.2).\<close>

definition nextPlayer :: "GameState \<Rightarrow> nat" where
  "nextPlayer s =
     (let n = length (players s); i = activePlayerIndex s
      in case find (\<lambda>j. isActive (players s ! j)) (map (\<lambda>k. (i + k) mod n) [1..<n + 1]) of
           Some j \<Rightarrow> j
         | None \<Rightarrow> i)"

text \<open>Modelled from the spec: the transition "fires when every still-active, non-all-in
  player has an equal \<open>currentBet\<close> and has acted at least once since the last raise"
  (section 4.2); a player is all-in with no chips left.\<close>

definition roundClosed :: "GameState \<Rightarrow> bool" where
  "roundClosed s =
     list_all (\<lambda>p. \<not> isActive p \<or> chips p = 0 \<or> (bet p = currentBet s \<and> hasActed p)) (players s)"

text \<open>Modelled from the spec: "reset \<open>currentBet\<close> to 0, clear each player's per-round
  bet" (section 4.2).\<close>

definition newRound :: "GameState \<Rightarrow> GameState" where
  "newRound s = s\<lparr>currentBet := 0,
     players := map (\<lambda>p. p\<lparr>bet := 0, hasActed := False\<rparr>) (players s)\<rparr>"

text \<open>Modelled from the spec: "reveal the next tranche of community cards" (section 4.2),
  dealt from the deck without repetition (section 2).\<close>

definition reveal :: "nat \<Rightarrow> GameState \<Rightarrow> GameState" where
  "reveal n s = s\<lparr>communityCards := communityCards s @ take n (deck s), deck := drop n (deck s)\<rparr>"

text \<open>Modelled from the spec: the award of the pot (section 4.2). The winners split the
  pot evenly, the remainder of the integer division goes to the winner in the earliest
  position, and the hand is complete.\<close>

definition awardPot :: "nat list \<Rightarrow> GameState \<Rightarrow> GameState" where
  "awardPot ws s =
     (let share = pot s div int (length ws);
          remainder = pot s mod int (length ws);
          paid = foldr (\<lambda>i ps. ps[i := (ps ! i)\<lparr>chips := chips (ps ! i) + share\<rparr>]) ws (players s);
          paid' = (case ws of
                     [] \<Rightarrow> paid
                   | w # _ \<Rightarrow> paid[w := (paid ! w)\<lparr>chips := chips (paid ! w) + remainder\<rparr>])
      in s\<lparr>players := paid', pot := 0, handComplete := True\<rparr>)"

text \<open>Modelled from the spec: hands are ranked "by \<open>(categoryRank, kickers)\<close>", the
  kickers compared in descending order, the first difference deciding (sections 4.1, 4.2).\<close>

definition handKey :: "HandEvaluation \<Rightarrow> nat \<times> int list" where
  "handKey h = (handRank h, rev (sort (map getRankValue (kickers h))))"

text \<open>Modelled from the spec: at showdown the still-active players' hole and community
  cards are evaluated, and the best hands win (section 4.2).\<close>

definition showdownWinners :: "Rules \<Rightarrow> GameState \<Rightarrow> nat list" where
  "showdownWinners rules s =
     (let key = (\<lambda>i. handKey (evaluate rules (holeCards (players s ! i) @ communityCards s)));
          best = Max (set (map key (activePlayers s)))
      in filter (\<lambda>i. key i = best) (activePlayers s))"

text \<open>Modelled from the spec: the order of the phases (section 4.2).\<close>

fun phaseNumber :: "Phase \<Rightarrow> nat" where
  "phaseNumber PREFLOP = 0"
| "phaseNumber FLOP = 1"
| "phaseNumber TURN = 2"
| "phaseNumber RIVER = 3"
| "phaseNumber SHOWDOWN = 4"

text \<open>Modelled from the spec: PREFLOP, FLOP, TURN, RIVER, SHOWDOWN (section 4.2).\<close>

fun nextPhase :: "Phase \<Rightarrow> Phase" where
  "nextPhase PREFLOP = FLOP"
| "nextPhase FLOP = TURN"
| "nextPhase TURN = RIVER"
| "nextPhase RIVER = SHOWDOWN"
| "nextPhase SHOWDOWN = SHOWDOWN"

text \<open>Modelled from the spec: the tranches of community cards, 3/1/1 (section 4.2).\<close>

fun tranche :: "Phase \<Rightarrow> nat" where
  "tranche FLOP = 3"
| "tranche TURN = 1"
| "tranche RIVER = 1"
| "tranche _ = 0"

text \<open>Modelled from the spec: one transition (section 4.2): new round, next tranche, next
  phase.\<close>

definition transition :: "GameState \<Rightarrow> GameState" where
  "transition s = reveal (tranche (nextPhase (phase s))) ((newRound s)\<lparr>phase := nextPhase (phase s)\<rparr>)"

text \<open>Modelled from the spec: an action "fully resolves (including any automatic phase
  transitions) before returning" (section 5). While the round is closed the phase
  advances; after the river the showdown awards the pot.\<close>

function settle :: "Rules \<Rightarrow> GameState \<Rightarrow> GameState" where
  "settle rules s =
     (if handComplete s \<or> \<not> roundClosed s \<or> phase s = SHOWDOWN then s
      else if phase s = RIVER then awardPot (showdownWinners rules (transition s)) (transition s)
      else settle rules (transition s))"
  by pat_completeness auto
termination
proof (relation "measure (\<lambda>(rules, s). 4 - phaseNumber (phase s))")
  show "wf (measure (\<lambda>(rules :: Rules, s). 4 - phaseNumber (phase s)))"
    by simp
next
  fix rules :: Rules and s :: GameState
  assume "\<not> (handComplete s \<or> \<not> roundClosed s \<or> phase s = SHOWDOWN)" and "phase s \<noteq> RIVER"
  then show "((rules, transition s), (rules, s)) \<in> measure (\<lambda>(rules, s). 4 - phaseNumber (phase s))"
    by (cases "phase s") (auto simp: transition_def reveal_def newRound_def)
qed

declare settle.simps [simp del]

text \<open>Modelled from the spec: after a legal action the turn passes to the next active
  player, and the action resolves (sections 4.2, 5).\<close>

definition finishTurn :: "Rules \<Rightarrow> GameState \<Rightarrow> GameState" where
  "finishTurn rules s = settle rules (s\<lparr>activePlayerIndex := nextPlayer s\<rparr>)"

text \<open>Modelled from the spec: RAISE "sets \<open>table.currentBet = amount\<close>; every other
  active player must act again" (section 4.2). The spec does not say how many chips the
  raise moves; here the raiser's bet of the round becomes \<open>amount\<close>.\<close>

definition raiseTo :: "int \<Rightarrow> GameState \<Rightarrow> GameState" where
  "raiseTo amount s =
     (let i = activePlayerIndex s;
          s1 = (moveToPot (amount - bet (currentPlayer s)) s)\<lparr>currentBet := amount\<rparr>
      in s1\<lparr>players := map (\<lambda>(j, p). p\<lparr>hasActed := (j = i)\<rparr>) (enumerate 0 (players s1))\<rparr>)"

text \<open>Modelled from the spec: \<open>processPlayerAction\<close> of section 4.2 (missing from the
  sources). FOLD deactivates the current player and ends the hand when exactly one active
  player remains; CHECK moves no chips; CALL moves \<open>table.currentBet - player.currentBet\<close>
  chips, capped at the player's chips; RAISE requires
  \<open>amount >= max(currentBet*2, currentBet+minimumIncrement)\<close> and \<open>amount <= player.chips\<close>.
  An action outside the legal set fails with \<open>InvalidAction\<close>, a raise above the chips with
  \<open>InsufficientFunds\<close>, and a rejected action leaves the state as it was.\<close>

definition processPlayerAction ::
  "Rules \<Rightarrow> PlayerAction \<Rightarrow> int \<Rightarrow> GameState \<Rightarrow> EngineError + GameState" where
  "processPlayerAction rules action amount s =
     (if action \<notin> set (getAvailableActions s) then Inl InvalidAction
      else case action of
        FOLD \<Rightarrow>
          (let s1 = updateCurrent (\<lambda>p. p\<lparr>isActive := False\<rparr>) s
           in case activePlayers s1 of
                [w] \<Rightarrow> Inr (awardPot [w] s1)
              | _ \<Rightarrow> Inr (finishTurn rules s1))
      | CHECK \<Rightarrow> Inr (finishTurn rules (updateCurrent (\<lambda>p. p\<lparr>hasActed := True\<rparr>) s))
      | CALL \<Rightarrow>
          Inr (finishTurn rules
            (updateCurrent (\<lambda>p. p\<lparr>hasActed := True\<rparr>)
              (moveToPot (min (currentBet s - bet (currentPlayer s)) (chips (currentPlayer s))) s)))
      | RAISE \<Rightarrow>
          if amount < max (currentBet s * 2) (currentBet s + minimumIncrement rules)
          then Inl InvalidAction
          else if chips (currentPlayer s) < amount then Inl InsufficientFunds
          else Inr (finishTurn rules (raiseTo amount s)))"

text \<open>Modelled from the spec: a sequence of actions within one hand; it stops at the
  first rejected action.\<close>

fun playHand :: "Rules \<Rightarrow> GameState \<Rightarrow> (PlayerAction \<times> int) list \<Rightarrow> EngineError + GameState" where
  "playHand rules s [] = Inr s"
| "playHand rules s ((action, amount) # rest) =
     (case processPlayerAction rules action amount s of
        Inl e \<Rightarrow> Inl e
      | Inr s' \<Rightarrow> playHand rules s' rest)"

text \<open>Modelled from the spec: a state of a hand in play: \<open>activePlayerIndex\<close> refers to a
  player, and unless the hand is complete at least two players are still active
  (section 3; with one active player left the hand is over, section 4.2).\<close>

definition tableReady :: "GameState \<Rightarrow> bool" where
  "tableReady s \<longleftrightarrow>
     activePlayerIndex s < length (players s)
     \<and> (handComplete s \<or> 2 \<le> length (activePlayers s))"

text \<open>A table for the examples: the evaluator of the sources, an increment of 50 as in
  the raise button, three players with the blinds of 10 and 20 posted, and the five cards
  that will come.\<close>

definition sourceEvaluate :: "PokerTypes \<Rightarrow> Card list \<Rightarrow> HandEvaluation" where
  "sourceEvaluate T cards = (case evaluateHand T cards of Inr h \<Rightarrow> h | Inl e \<Rightarrow> incompleteHand)"

definition houseRules :: Rules where
  "houseRules = \<lparr>minimumIncrement = 50, evaluate = sourceEvaluate faceTypes\<rparr>"

definition seat :: "string \<Rightarrow> int \<Rightarrow> int \<Rightarrow> Card list \<Rightarrow> bool \<Rightarrow> Player" where
  "seat n c b h robot = \<lparr>name = n, chips = c, holeCards = h, bet = b, isActive = True,
     isBot = robot, hasActed = False\<rparr>"

definition openingState :: GameState where
  "openingState = \<lparr>players =
       [seat ''You'' 1000 0 [cardOf ACE SPADES, cardOf KING SPADES] False,
        seat ''Bot 1'' 990 10 [cardOf TWO CLUBS, cardOf SEVEN DIAMONDS] True,
        seat ''Bot 2'' 980 20 [cardOf NINE HEARTS, cardOf NINE CLUBS] True],
     communityCards = [],
     deck = [cardOf NINE SPADES, cardOf FOUR HEARTS, cardOf JACK DIAMONDS, cardOf TEN SPADES,
       cardOf THREE CLUBS],
     pot = 30, currentBet = 20, phase = PREFLOP, activePlayerIndex = 0, handNumber = 1,
     handComplete = False\<rparr>"

definition playedToShowdown :: "(PlayerAction \<times> int) list" where
  "playedToShowdown = [(CALL, 20), (FOLD, 0), (CHECK, 0), (CHECK, 0), (RAISE, 100), (CALL, 100),
     (CHECK, 0), (CHECK, 0), (CHECK, 0), (CHECK, 0)]"

definition shownDown :: GameState where
  "shownDown = \<lparr>players =
       [seat ''You'' 880 0 [cardOf ACE SPADES, cardOf KING SPADES] False,
        (seat ''Bot 1'' 990 0 [cardOf TWO CLUBS, cardOf SEVEN DIAMONDS] True)\<lparr>isActive := False\<rparr>,
        seat ''Bot 2'' 1130 0 [cardOf NINE HEARTS, cardOf NINE CLUBS] True],
     communityCards = [cardOf NINE SPADES, cardOf FOUR HEARTS, cardOf JACK DIAMONDS,
       cardOf TEN SPADES, cardOf THREE CLUBS],
     deck = [],
     pot = 0, currentBet = 0, phase = SHOWDOWN, activePlayerIndex = 2, handNumber = 1,
     handComplete = True\<rparr>"

section \<open>Rounding to a double\<close>

text \<open>
  \<open>binade x\<close> is the binary exponent of \<open>x\<close>, and \<open>toDouble x\<close> is a multiple of
  \<open>2 ^ (binade x - 52)\<close> that is no further than half of that unit from \<open>x\<close>.
\<close>

lemma bitLength_nonneg: "0 \<le> bitLength n"
  by (induction n rule: bitLength.induct) (subst bitLength.simps, simp)

lemma bitLength_bounds:
  "0 < n \<Longrightarrow> 2 ^ nat (bitLength n - 1) \<le> n \<and> n < 2 ^ nat (bitLength n)"
proof (induction n rule: bitLength.induct)
  case (1 n)
  show ?case
  proof (cases "n = 1")
    case True
    then show ?thesis
      by (simp add: bitLength.simps [of 1] bitLength.simps [of 0])
  next
    case False
    with "1.prems" have half: "0 < n div 2" by simp
    with "1.IH" "1.prems" have IH: "2 ^ nat (bitLength (n div 2) - 1) \<le> n div 2"
      "n div 2 < 2 ^ nat (bitLength (n div 2))"
      by simp_all
    have pos: "1 \<le> bitLength (n div 2)"
      using half bitLength_nonneg [of "n div 2 div 2"] by (subst bitLength.simps) simp
    have len: "bitLength n = 1 + bitLength (n div 2)"
      using "1.prems" by (subst bitLength.simps) simp
    have "nat (bitLength n - 1) = Suc (nat (bitLength (n div 2) - 1))"
      "nat (bitLength n) = Suc (nat (bitLength (n div 2)))"
      using pos len by simp_all
    moreover have "2 * a \<le> n \<and> n < 2 * b" if "a \<le> n div 2" "n div 2 < b" for a b :: int
      using that by linarith
    ultimately show ?thesis
      using IH by simp
  qed
qed

lemma roundHalfEven_near: "\<bar>real_of_int (roundHalfEven y) - y\<bar> \<le> 1 / 2"
  unfolding roundHalfEven_def Let_def by (auto; linarith)

lemma binade_large:
  assumes "1 \<le> \<bar>x\<bar>"
  shows "2 ^ nat (binade x) \<le> \<bar>x\<bar> \<and> \<bar>x\<bar> < 2 ^ nat (binade x + 1)"
proof -
  let ?n = "\<lfloor>\<bar>x\<bar>\<rfloor>"
  have pos: "0 < ?n" using assms by simp
  from bitLength_bounds [OF pos]
  have lo: "2 ^ nat (bitLength ?n - 1) \<le> ?n" and hi: "?n < 2 ^ nat (bitLength ?n)"
    by simp_all
  have one: "1 \<le> bitLength ?n"
    using pos bitLength_nonneg [of "?n div 2"] by (subst bitLength.simps) simp
  then have b: "binade x = bitLength ?n - 1"
    using assms by (simp add: binade_def)
  have "real_of_int (2 ^ nat (bitLength ?n - 1)) \<le> \<bar>x\<bar>"
    using lo by (meson le_floor_iff)
  moreover have "\<bar>x\<bar> < real_of_int (2 ^ nat (bitLength ?n))"
    using hi by (meson floor_less_iff)
  ultimately show ?thesis
    using b one by simp
qed

lemma binade_small:
  assumes "\<bar>x\<bar> < 1" and "1 / 2 ^ 1022 \<le> \<bar>x\<bar>"
  shows "1 / 2 ^ nat (- binade x) \<le> \<bar>x\<bar> \<and> \<bar>x\<bar> < 2 / 2 ^ nat (- binade x)"
proof -
  let ?y = "1 / \<bar>x\<bar>"
  let ?m = "\<lceil>?y\<rceil> - 1"
  have xpos: "0 < \<bar>x\<bar>"
    using assms(2) by (smt (verit) divide_pos_pos zero_less_power)
  then have y: "1 < ?y" "?y \<le> 2 ^ 1022"
    using assms by (simp_all add: field_simps)
  then have pos: "0 < ?m" by linarith
  from bitLength_bounds [OF pos]
  have lo: "2 ^ nat (bitLength ?m - 1) \<le> ?m" and hi: "?m < 2 ^ nat (bitLength ?m)"
    by simp_all
  have one: "1 \<le> bitLength ?m"
    using pos bitLength_nonneg [of "?m div 2"] by (subst bitLength.simps) simp
  have below: "real_of_int ?m < ?y" and above: "?y \<le> real_of_int ?m + 1"
    by linarith+
  have "real_of_int (2 ^ nat (bitLength ?m - 1)) < ?y"
    using lo below by (smt (verit) of_int_le_iff)
  then have up: "2 ^ nat (bitLength ?m - 1) < ?y" by simp
  have "?m + 1 \<le> 2 ^ nat (bitLength ?m)" using hi by simp
  then have "real_of_int (?m + 1) \<le> real_of_int (2 ^ nat (bitLength ?m))"
    by (simp only: of_int_le_iff)
  then have "real_of_int ?m + 1 \<le> 2 ^ nat (bitLength ?m)"
    by simp
  with above have down: "?y \<le> 2 ^ nat (bitLength ?m)" by linarith
  have two: "(1::real) < 2" by simp
  have "(2::real) ^ nat (bitLength ?m - 1) < 2 ^ 1022"
    using up y(2) by linarith
  from power_less_imp_less_exp [OF two this]
  have "nat (bitLength ?m - 1) < 1022" .
  then have b: "binade x = - bitLength ?m"
    using assms(1) one by (simp add: binade_def)
  have k: "nat (bitLength ?m) = Suc (nat (bitLength ?m - 1))"
    using one by simp
  have "1 / 2 ^ nat (bitLength ?m) \<le> \<bar>x\<bar>"
    using down xpos by (simp add: field_simps)
  moreover have "\<bar>x\<bar> < 2 / 2 ^ nat (bitLength ?m)"
    using up xpos by (simp add: k field_simps)
  ultimately show ?thesis
    by (simp add: b)
qed

lemma scaleBy_inverse: "scaleBy (scaleBy x (- k)) k = x"
  by (simp add: scaleBy_def)

lemma toDouble_near: "\<bar>toDouble x - x\<bar> \<le> scaleBy (1 / 2) (binade x - 52)"
proof -
  let ?k = "binade x - 52"
  let ?y = "scaleBy x (- ?k)"
  have "toDouble x - x = scaleBy (real_of_int (roundHalfEven ?y) - ?y) ?k"
    using scaleBy_inverse [of x ?k]
    by (simp add: toDouble_def Let_def scaleBy_def algebra_simps diff_divide_distrib split: if_splits)
  moreover have "\<bar>scaleBy z ?k\<bar> \<le> scaleBy (1 / 2) ?k" if "\<bar>z\<bar> \<le> 1 / 2" for z
    using that by (auto simp: scaleBy_def abs_mult divide_simps)
  ultimately show ?thesis
    using roundHalfEven_near [of ?y] by simp
qed

lemmas doubles =
  jsAdd_def jsDiv_def toDouble_def binade_def roundHalfEven_def scaleBy_def bitLength.simps Let_def

text \<open>
  The doubles of \<open>0.3 + 3/100\<close>, \<open>0.3 + 9/100\<close> and \<open>0.1 + 10/200\<close>, printed by
  JavaScript as \<open>0.32999999999999996\<close>, \<open>0.39\<close> and \<open>0.15000000000000002\<close>.
\<close>

lemma pair_of_threes_double: "jsAdd 0.3 (jsDiv 3 100) = 2972375754064527 / 2 ^ 53"
  by (simp add: doubles)

lemma pair_of_nines_double: "jsAdd 0.3 (jsDiv 9 100) = 3512807709348987 / 2 ^ 53"
  by (simp add: doubles)

lemma ten_high_double: "jsAdd 0.1 (jsDiv 10 200) = 1351079888211149 / 2 ^ 53"
  by (simp add: doubles)

lemma nearest_doubles:
  "toDouble (0.3 + 3 / 100) = 5944751508129055 / 2 ^ 54"
  "toDouble (0.3 + 9 / 100) = 3512807709348987 / 2 ^ 53"
  "toDouble (0.1 + 10 / 200) = 5404319552844595 / 2 ^ 55"
  by (simp_all add: doubles)

lemma pair_strength_near:
  "\<bar>jsAdd 0.3 (jsDiv (real_of_int (getRankValue r)) 100)
      - (0.3 + real_of_int (getRankValue r) / 100)\<bar> < 1 / 2 ^ 54"
  by (cases r) (simp_all add: doubles)

lemma high_card_strength_near:
  "\<bar>jsAdd 0.1 (jsDiv (real_of_int (getRankValue r)) 200)
      - (0.1 + real_of_int (getRankValue r) / 200)\<bar> < 1 / 2 ^ 54"
  by (cases r) (simp_all add: doubles)

section \<open>Counting and key order\<close>

lemma map_of_countUp:
  "map_of (countUp k m) k' =
     (if k' = k then Some (case map_of m k of None \<Rightarrow> 1 | Some n \<Rightarrow> n + 1) else map_of m k')"
  by (induction m) auto

lemma map_of_foldl_countUp:
  "map_of (foldl (\<lambda>m x. countUp (f x) m) m0 xs) k =
     (case map_of m0 k of
        None \<Rightarrow> if occurrences f k xs = 0 then None else Some (occurrences f k xs)
      | Some a \<Rightarrow> Some (a + occurrences f k xs))"
proof (induction xs arbitrary: m0)
  case Nil
  then show ?case by (simp add: occurrences_def split: option.splits)
next
  case (Cons x xs)
  show ?case
    by (simp add: Cons.IH map_of_countUp occurrences_def split: option.splits)
qed

lemma countAt_getRankCounts:
  "countAt (getRankCounts cards) r =
     (if occurrences rank r cards = 0 then None else Some (occurrences rank r cards))"
  by (simp add: countAt_def getRankCounts_def map_of_foldl_countUp)

lemma countAt_getSuitCounts:
  "countAt (getSuitCounts cards) s =
     (if occurrences suit s cards = 0 then None else Some (occurrences suit s cards))"
  by (simp add: countAt_def getSuitCounts_def map_of_foldl_countUp)

lemma countAt_rank_eq:
  "0 < n \<Longrightarrow> countAt (getRankCounts cards) r = Some n \<longleftrightarrow> occurrences rank r cards = n"
  by (auto simp: countAt_getRankCounts)

lemma set_objectKeys: "set (objectKeys str props) = fst ` set props"
  by (auto simp: objectKeys_def Let_def)

lemma keys_getRankCounts:
  "r \<in> set (objectKeys str (getRankCounts cards)) \<longleftrightarrow> 0 < occurrences rank r cards"
proof -
  have "r \<in> fst ` set (getRankCounts cards) \<longleftrightarrow> map_of (getRankCounts cards) r \<noteq> None"
    by (simp add: map_of_eq_None_iff)
  then show ?thesis
    using countAt_getRankCounts [of cards r]
    by (auto simp: set_objectKeys countAt_def)
qed

lemma keys_countUp: "set (map fst (countUp k m)) = insert k (set (map fst m))"
  by (induction k m rule: countUp.induct) auto

lemma distinct_countUp: "distinct (map fst m) \<Longrightarrow> distinct (map fst (countUp k m))"
proof (induction k m rule: countUp.induct)
  case (1 k)
  then show ?case by simp
next
  case (2 k k' n ps)
  then show ?case
    using keys_countUp [of k ps] by auto
qed

lemma distinct_foldl_countUp:
  "distinct (map fst m) \<Longrightarrow> distinct (map fst (foldl (\<lambda>m x. countUp (f x) m) m xs))"
  by (induction xs arbitrary: m) (simp_all add: distinct_countUp)

lemma distinct_objectKeys:
  "distinct (map fst props) \<Longrightarrow> distinct (objectKeys str props)"
  by (auto simp: objectKeys_def Let_def)

lemma distinct_rank_keys: "distinct (objectKeys str (getRankCounts cards))"
  by (simp add: distinct_objectKeys getRankCounts_def distinct_foldl_countUp)

lemma occurrences_sort_key [simp]: "occurrences f k (sort_key g xs) = occurrences f k xs"
  by (simp add: occurrences_def filter_sort)

lemma set_sortByRankDesc [simp]: "set (sortByRankDesc f xs) = set xs"
  by (simp add: sortByRankDesc_def)

lemma occurrences_sortByRankDesc [simp]:
  "occurrences f k (sortByRankDesc g xs) = occurrences f k xs"
  by (simp add: sortByRankDesc_def)

lemma set_newSet [simp]: "set (newSet xs) = set xs"
  by (induction xs) auto

lemma getRankValue_bounds: "2 \<le> getRankValue r \<and> getRankValue r \<le> 14"
  by (cases r) simp_all

lemma sort_key_head:
  assumes "sort_key f xs = y # ys"
  shows "y \<in> set xs \<and> (\<forall>x \<in> set xs. f y \<le> f x)"
proof -
  have "sorted (map f (y # ys))"
    using sorted_sort_key [of f xs] assms by simp
  moreover have "set (y # ys) = set xs"
    using set_sort [of f xs] assms by simp
  ultimately show ?thesis
    by auto
qed

section \<open>What each check returns\<close>

lemma checkFlush_no_error: "checkFlush T s \<noteq> Inl e"
proof -
  have "filter (\<lambda>card. suit card = fs) s \<noteq> []"
    if "find (\<lambda>s'. case countAt (getSuitCounts s) s' of None \<Rightarrow> False | Some n \<Rightarrow> 5 \<le> n)
          (objectKeys (suitStr T) (getSuitCounts s)) = Some fs" for fs
  proof -
    from that have "case countAt (getSuitCounts s) fs of None \<Rightarrow> False | Some n \<Rightarrow> 5 \<le> n"
      by (auto simp: find_Some_iff)
    then have "5 \<le> occurrences suit fs s"
      by (auto simp: countAt_getSuitCounts split: if_splits)
    then show ?thesis
      by (auto simp: occurrences_def)
  qed
  then show ?thesis
    by (auto simp: checkFlush_def Let_def split: option.splits list.splits)
qed

lemma checkFlush_shape:
  "checkFlush T s = Inr (Some h) \<Longrightarrow>
     handType h = ''Flush'' \<and> handRank h = 6 \<and> strength h = 0.75"
  by (auto simp: checkFlush_def Let_def split: option.splits list.splits)

lemma checkFlush_Nil: "checkFlush T [] = Inr None"
  by (simp add: checkFlush_def getSuitCounts_def objectKeys_def)

lemma checkStraightFlush_no_error: "checkStraightFlush T s \<noteq> Inl e"
proof (cases s)
  case Nil
  then show ?thesis
    by (simp add: checkStraightFlush_def checkFlush_Nil)
next
  case (Cons c cs)
  then show ?thesis
    using checkFlush_no_error [of T s]
    by (auto simp: checkStraightFlush_def Let_def split: sum.splits)
qed

lemma checkStraightFlush_shape:
  "checkStraightFlush T s = Inr (Some h) \<Longrightarrow>
     (handType h = ''Royal Flush'' \<and> handRank h = 10 \<and> strength h = 1) \<or>
     (handType h = ''Straight Flush'' \<and> handRank h = 9 \<and> strength h = 0.95)"
  by (auto simp: checkStraightFlush_def Let_def split: sum.splits list.splits if_splits)

lemma checkFourOfAKind_shape:
  "checkFourOfAKind T s = Some h \<Longrightarrow>
     handType h = ''Four of a Kind'' \<and> handRank h = 8 \<and> strength h = 0.9"
  by (auto simp: checkFourOfAKind_def Let_def split: option.splits)

lemma checkFullHouse_shape:
  "checkFullHouse T s = Some h \<Longrightarrow>
     handType h = ''Full House'' \<and> handRank h = 7 \<and> strength h = 0.85"
  by (auto simp: checkFullHouse_def Let_def split: option.splits)

lemma checkThreeOfAKind_shape:
  "checkThreeOfAKind T s = Some h \<Longrightarrow>
     handType h = ''Three of a Kind'' \<and> handRank h = 4 \<and> strength h = 0.55"
  by (auto simp: checkThreeOfAKind_def Let_def split: option.splits)

lemma checkTwoPair_shape:
  "checkTwoPair T s = Some h \<Longrightarrow>
     handType h = ''Two Pair'' \<and> handRank h = 3 \<and> strength h = 0.45"
  by (auto simp: checkTwoPair_def Let_def split: option.splits if_splits)

lemma checkTwoPair_kickers:
  assumes "checkTwoPair T s = Some h"
  shows "length (kickers h) \<le> 1 \<and> (\<forall>k \<in> set (kickers h). occurrences rank k s = 1)"
proof -
  have "occurrences rank k s = 1"
    if "find (\<lambda>r. countAt (getRankCounts s) r = Some 1)
          (objectKeys (rankStr T) (getRankCounts s)) = Some k" for k
    using that by (auto simp: find_Some_iff countAt_getRankCounts split: if_splits)
  then show ?thesis
    using assms
    by (auto simp: checkTwoPair_def Let_def split: if_splits option.splits)
qed

lemma checkTwoPair_None:
  assumes "checkTwoPair T s = None"
    and "occurrences rank r s = 2" and "occurrences rank r' s = 2"
  shows "r' = r"
proof (rule ccontr)
  assume "r' \<noteq> r"
  let ?pairs = "filter (\<lambda>r. countAt (getRankCounts s) r = Some 2)
    (objectKeys (rankStr T) (getRankCounts s))"
  have "r \<in> set ?pairs" "r' \<in> set ?pairs"
    using assms(2,3) by (simp_all add: keys_getRankCounts countAt_getRankCounts)
  with \<open>r' \<noteq> r\<close> have "card {r, r'} \<le> card (set ?pairs)"
    by (intro card_mono) auto
  moreover have "card (set ?pairs) = length ?pairs"
    by (intro distinct_card distinct_filter distinct_rank_keys)
  ultimately have "2 \<le> length ?pairs"
    using \<open>r' \<noteq> r\<close> by simp
  with assms(1) show False
    by (simp add: checkTwoPair_def Let_def)
qed

lemma checkPair_shape:
  "checkPair T s = Some h \<Longrightarrow> handType h = ''Pair'' \<and> handRank h = 2"
  by (auto simp: checkPair_def Let_def split: option.splits)

lemma checkPair_strength:
  assumes "checkPair T s = Some h"
  shows "\<exists>r. occurrences rank r s = 2
    \<and> strength h = jsAdd 0.3 (jsDiv (real_of_int (getRankValue r)) 100)"
  using assms
  by (auto simp: checkPair_def Let_def find_Some_iff countAt_getRankCounts
      split: option.splits if_splits)

lemma checkHighCard_shape:
  "checkHighCard s = Inr h \<Longrightarrow> handType h = ''High Card'' \<and> handRank h = 1"
  by (auto simp: checkHighCard_def Let_def split: list.splits)

lemma checkHighCard_no_error: "s \<noteq> [] \<Longrightarrow> checkHighCard s \<noteq> Inl e"
proof -
  assume "s \<noteq> []"
  then have "length (take 5 (sortByRankDesc id (map rank s))) \<noteq> 0"
    by (simp add: sortByRankDesc_def)
  then show ?thesis
    by (auto simp: checkHighCard_def Let_def split: list.splits)
qed

lemma highestRankValue_sort [simp]:
  "highestRankValue (sortByRankDesc f cards) = highestRankValue cards"
  by (simp add: highestRankValue_def sortByRankDesc_def)

lemma checkHighCard_strength:
  assumes "checkHighCard s = Inr h"
  shows "\<exists>r. highestRankValue s = getRankValue r
    \<and> strength h = jsAdd 0.1 (jsDiv (real_of_int (highestRankValue s)) 200)"
proof -
  obtain first rest where
    srt: "take 5 (sortByRankDesc id (map rank s)) = first # rest"
    and str: "strength h = jsAdd 0.1 (jsDiv (real_of_int (getRankValue first)) 200)"
    using assms by (auto simp: checkHighCard_def Let_def split: list.splits)
  obtain rest' where "sort_key (\<lambda>r. - getRankValue r) (map rank s) = first # rest'"
    using srt by (cases "sort_key (\<lambda>r. - getRankValue r) (map rank s)")
      (auto simp: sortByRankDesc_def)
  from sort_key_head [OF this]
  have "first \<in> rank ` set s" and "\<forall>c \<in> set s. getRankValue (rank c) \<le> getRankValue first"
    by auto
  then have "highestRankValue s = getRankValue first"
    unfolding highestRankValue_def by (intro Max_eqI) auto
  with str show ?thesis by (intro exI [of _ first]) simp
qed

lemma checkStraight_shape:
  "checkStraight s = Some h \<Longrightarrow> handType h = ''Straight'' \<and> handRank h = 5"
  by (auto simp: checkStraight_def Let_def split: option.splits if_splits)

lemma straightFrom_Some:
  "straightFrom us = Some u \<Longrightarrow> u \<in> set us \<and> u - 4 \<in> set us"
proof (induction us)
  case Nil
  then show ?case by simp
next
  case (Cons v vs)
  show ?case
  proof (cases "5 \<le> length (v # vs) \<and> consecutive (v # vs)")
    case True
    with Cons.prems have "u = v" by simp
    moreover from True have "(v # vs) ! 4 = v - 4"
      by (simp add: consecutive_def)
    moreover from True have "(v # vs) ! 4 \<in> set (v # vs)"
      by (intro nth_mem) simp
    ultimately show ?thesis by auto
  next
    case False
    with Cons show ?thesis by (auto split: if_splits)
  qed
qed

lemma rank_of_value:
  "getRankValue r = 14 \<longleftrightarrow> r = ACE" "getRankValue r = 2 \<longleftrightarrow> r = TWO"
  "getRankValue r = 3 \<longleftrightarrow> r = THREE" "getRankValue r = 4 \<longleftrightarrow> r = FOUR"
  "getRankValue r = 5 \<longleftrightarrow> r = FIVE"
  by (cases r; simp)+

lemma checkStraight_strength:
  assumes "checkStraight s = Some h"
  shows "if kickers h = [FIVE]
    then strength h = 0.6 \<and> {ACE, TWO, THREE, FOUR, FIVE} \<subseteq> rank ` set s
    else strength h = 0.65"
proof (cases "straightFrom (sort_key (\<lambda>v. - v) (newSet (map (\<lambda>card. getRankValue (rank card)) s)))")
  case None
  have "r \<in> rank ` set s" if "getRankValue r \<in> (\<lambda>card. getRankValue (rank card)) ` set s" for r
  proof -
    from that obtain c where "c \<in> set s" "getRankValue r = getRankValue (rank c)"
      by auto
    then have "r = rank c"
      by (cases r; cases "rank c"; simp)
    with \<open>c \<in> set s\<close> show ?thesis by simp
  qed
  from this [of ACE] this [of TWO] this [of THREE] this [of FOUR] this [of FIVE] None assms
  show ?thesis
    by (auto simp: checkStraight_def Let_def split: if_splits)
next
  case (Some high)
  from straightFrom_Some [OF this] obtain c where "c \<in> set s" "high - 4 = getRankValue (rank c)"
    by auto
  then have "6 \<le> high"
    using getRankValue_bounds [of "rank c"] by simp
  then have "find (\<lambda>r. getRankValue r = high) rankMembers \<noteq> Some FIVE"
    by (auto simp: find_Some_iff)
  with Some assms show ?thesis
    by (auto simp: checkStraight_def Let_def split: option.splits)
qed

section \<open>The chain of checks\<close>

lemma firstOf_cases:
  "firstOf cs final = Inr h \<Longrightarrow> Inr (Some h) \<in> set cs \<or> final = Inr h"
  by (induction cs final rule: firstOf.induct) auto

lemma firstOf_no_error:
  "\<forall>c \<in> set cs. \<forall>e. c \<noteq> Inl e \<Longrightarrow> \<forall>e. final \<noteq> Inl e \<Longrightarrow> \<exists>h. firstOf cs final = Inr h"
proof (induction cs final rule: firstOf.induct)
  case (1 final)
  then show ?case by (cases final) auto
qed auto

lemma firstOf_Cons:
  "firstOf (c # cs) final =
     (case c of Inl e \<Rightarrow> Inl e | Inr None \<Rightarrow> firstOf cs final | Inr (Some h) \<Rightarrow> Inr h)"
  by (simp split: sum.splits option.splits)

lemma evaluateHand_cases:
  assumes "5 \<le> length cards" and "evaluateHand T cards = Inr h"
  shows "checkStraightFlush T (sortByRankDesc rank cards) = Inr (Some h)
    \<or> checkFourOfAKind T (sortByRankDesc rank cards) = Some h
    \<or> checkFullHouse T (sortByRankDesc rank cards) = Some h
    \<or> checkFlush T (sortByRankDesc rank cards) = Inr (Some h)
    \<or> checkStraight (sortByRankDesc rank cards) = Some h
    \<or> checkThreeOfAKind T (sortByRankDesc rank cards) = Some h
    \<or> checkTwoPair T (sortByRankDesc rank cards) = Some h
    \<or> checkPair T (sortByRankDesc rank cards) = Some h
    \<or> checkHighCard (sortByRankDesc rank cards) = Inr h"
  using assms firstOf_cases [of _ "checkHighCard (sortByRankDesc rank cards)" h]
  by (fastforce simp: evaluateHand_def Let_def)

lemma evaluateHand_returns: "\<exists>h. evaluateHand T cards = Inr h"
proof (cases "length cards < 5")
  case True
  then show ?thesis by (simp add: evaluateHand_def)
next
  case False
  then have "sortByRankDesc rank cards \<noteq> []"
    by (cases cards) (auto simp: sortByRankDesc_def)
  then have "\<forall>e. checkHighCard (sortByRankDesc rank cards) \<noteq> Inl e"
    by (simp add: checkHighCard_no_error)
  then show ?thesis
    using False
    by (auto simp: evaluateHand_def Let_def checkStraightFlush_no_error [symmetric]
        checkFlush_no_error [symmetric] intro!: firstOf_no_error)
qed

lemma evaluateHand_Pair:
  assumes "5 \<le> length cards" and "evaluateHand T cards = Inr h" and "handType h = ''Pair''"
  shows "checkPair T (sortByRankDesc rank cards) = Some h
    \<and> checkTwoPair T (sortByRankDesc rank cards) = None"
  using assms
  by (auto simp: evaluateHand_def Let_def firstOf_Cons split: sum.splits option.splits
      dest: checkStraightFlush_shape checkFourOfAKind_shape checkFullHouse_shape
        checkFlush_shape checkStraight_shape checkThreeOfAKind_shape checkTwoPair_shape
        checkHighCard_shape)

lemmas evaluation =
  evaluateHand_def cardOf_def sortByRankDesc_def checkStraightFlush_def checkFlush_def
  getSuitCounts_def getRankCounts_def countAt_def objectKeys_def faceTypes_def arrayIndex_def
  digitOf_def checkStraight_def consecutive_def checkFourOfAKind_def checkFullHouse_def
  checkThreeOfAKind_def checkTwoPair_def checkPair_def checkHighCard_def rankMembers_def
  incompleteHand_def occurrences_def Let_def

section \<open>Fewer than five cards\<close>

text \<open>
  Claim C4. For every input of fewer than five cards, the empty list included,
  \<open>evaluateHand\<close> does not fail: it returns the placeholder evaluation, High Card with
  \<open>handRank\<close> 1, strength 0.1, no kickers and the description \<open>Incomplete hand\<close>.
\<close>

theorem evaluateHand_incomplete:
  assumes "length cards < 5"
  shows "evaluateHand T cards = Inr \<lparr>handType = ''High Card'', handRank = 1, kickers = [],
           description = ''Incomplete hand'', strength = 0.1\<rparr>"
  using assms by (simp add: evaluateHand_def incompleteHand_def)

theorem evaluateHand_incomplete_witness:
  "length ([] :: Card list) < 5
   \<and> evaluateHand faceTypes [] = Inr \<lparr>handType = ''High Card'', handRank = 1, kickers = [],
        description = ''Incomplete hand'', strength = 0.1\<rparr>"
  using evaluateHand_incomplete [of "[]" faceTypes] by simp

text \<open>
  Claim C3 says that an input of fewer than five cards fails with \<open>InsufficientCards\<close>.
  The guard of \<open>evaluateHand\<close> returns instead: four spades evaluate to the placeholder.
\<close>

theorem four_cards_do_not_fail:
  "evaluateHand faceTypes fourSpades = Inr \<lparr>handType = ''High Card'', handRank = 1,
     kickers = [], description = ''Incomplete hand'', strength = 0.1\<rparr>"
  by (simp add: evaluateHand_def incompleteHand_def fourSpades_def)

text \<open>
  Claim C3, amended. For every input of fewer than five cards \<open>evaluateHand\<close> raises no
  error: it returns a \<open>HandEvaluation\<close>, of category High Card with strength 0.1.
\<close>

theorem short_input_returns:
  assumes "length cards < 5"
  shows "(\<forall>e. evaluateHand T cards \<noteq> Inl e)
    \<and> (\<exists>h. evaluateHand T cards = Inr h \<and> handType h = ''High Card'' \<and> strength h = 0.1)"
  using assms by (simp add: evaluateHand_def incompleteHand_def)

theorem short_input_returns_witness:
  "length fourSpades < 5
   \<and> (\<forall>e. evaluateHand faceTypes fourSpades \<noteq> Inl e)
   \<and> (\<exists>h. evaluateHand faceTypes fourSpades = Inr h \<and> handType h = ''High Card''
        \<and> strength h = 0.1)"
  using short_input_returns [of fourSpades faceTypes] by (simp add: fourSpades_def)

section \<open>Strength by category\<close>

lemma pairOfThrees_value:
  "evaluateHand faceTypes pairOfThrees = Inr \<lparr>handType = ''Pair'', handRank = 2,
     kickers = [NINE, SEVEN, FIVE], description = ''Pair of 3s'',
     strength = 2972375754064527 / 2 ^ 53\<rparr>"
  by (simp add: evaluation pairOfThrees_def pair_of_threes_double)

lemma tenHigh_value:
  "evaluateHand faceTypes tenHigh = Inr \<lparr>handType = ''High Card'', handRank = 1,
     kickers = [TEN, EIGHT, SEVEN, FIVE, THREE], description = ''High Card, undefined'',
     strength = 1351079888211149 / 2 ^ 53\<rparr>"
  by (simp add: evaluation tenHigh_def ten_high_double)

lemma tenHigh_top: "highestRankValue tenHigh = 10"
  by (simp add: highestRankValue_def tenHigh_def cardOf_def)

text \<open>
  Claim C6 says that the strength of a Pair equals \<open>0.3 + pairRank / 100\<close> and that of a
  High Card \<open>0.1 + topRank / 200\<close>. \<open>evaluateHand\<close> computes both in doubles. For a pair
  of threes it returns 0.32999999999999996, which is neither 33/100 nor the double
  nearest to 33/100 (the number \<open>0.33\<close> of JavaScript); for ten high it returns
  0.15000000000000002, which is neither 15/100 nor the double nearest to it.
\<close>

theorem rank_scaled_strength_is_rounded:
  "evaluateHand faceTypes pairOfThrees = Inr \<lparr>handType = ''Pair'', handRank = 2,
       kickers = [NINE, SEVEN, FIVE], description = ''Pair of 3s'',
       strength = 2972375754064527 / 2 ^ 53\<rparr>
   \<and> occurrences rank THREE pairOfThrees = 2
   \<and> (2972375754064527 / 2 ^ 53 :: real) \<noteq> 0.3 + real_of_int (getRankValue THREE) / 100
   \<and> (2972375754064527 / 2 ^ 53 :: real)
        \<noteq> toDouble (0.3 + real_of_int (getRankValue THREE) / 100)
   \<and> evaluateHand faceTypes tenHigh = Inr \<lparr>handType = ''High Card'', handRank = 1,
       kickers = [TEN, EIGHT, SEVEN, FIVE, THREE], description = ''High Card, undefined'',
       strength = 1351079888211149 / 2 ^ 53\<rparr>
   \<and> (1351079888211149 / 2 ^ 53 :: real) \<noteq> 0.1 + real_of_int (highestRankValue tenHigh) / 200
   \<and> (1351079888211149 / 2 ^ 53 :: real)
        \<noteq> toDouble (0.1 + real_of_int (highestRankValue tenHigh) / 200)"
  using nearest_doubles
  by (simp add: pairOfThrees_value tenHigh_value tenHigh_top)
    (simp add: pairOfThrees_def occurrences_def cardOf_def)

text \<open>
  Claim C6, amended. For every input of at least five cards \<open>evaluateHand\<close> returns, and
  the strength is the constant of the category: Royal Flush 1.0, Straight Flush 0.95,
  Four of a Kind 0.9, Full House 0.85, Flush 0.75, Straight 0.65 (0.60 for the five-high
  straight, the wheel, whose ranks ace to five are then all among the cards), Three of a
  Kind 0.55 (and Two Pair 0.45); for Pair it is the double that \<open>0.3 + pairRank / 100\<close>
  evaluates to, the quotient and the sum each rounded to the nearest double, where
  \<open>pairRank\<close> is the value of the one rank that occurs exactly twice, and for High Card it
  is the double that \<open>0.1 + topRank / 200\<close> evaluates to, where \<open>topRank\<close> is the highest
  rank value among the cards. Both are less than \<open>2 ^ -54\<close> away from the exact value of
  the formula.
\<close>

theorem strength_of_category:
  assumes "5 \<le> length cards"
  shows "\<exists>h. evaluateHand T cards = Inr h \<and>
    (handType h = ''Royal Flush'' \<and> strength h = 1.0
     \<or> handType h = ''Straight Flush'' \<and> strength h = 0.95
     \<or> handType h = ''Four of a Kind'' \<and> strength h = 0.9
     \<or> handType h = ''Full House'' \<and> strength h = 0.85
     \<or> handType h = ''Flush'' \<and> strength h = 0.75
     \<or> handType h = ''Straight''
         \<and> (if kickers h = [FIVE]
              then strength h = 0.6 \<and> {ACE, TWO, THREE, FOUR, FIVE} \<subseteq> rank ` set cards
              else strength h = 0.65)
     \<or> handType h = ''Three of a Kind'' \<and> strength h = 0.55
     \<or> handType h = ''Two Pair'' \<and> strength h = 0.45
     \<or> handType h = ''Pair''
         \<and> (\<exists>r. occurrences rank r cards = 2
                \<and> (\<forall>r'. occurrences rank r' cards = 2 \<longrightarrow> r' = r)
                \<and> strength h = jsAdd 0.3 (jsDiv (real_of_int (getRankValue r)) 100)
                \<and> \<bar>strength h - (0.3 + real_of_int (getRankValue r) / 100)\<bar> < 1 / 2 ^ 54)
     \<or> handType h = ''High Card''
         \<and> strength h = jsAdd 0.1 (jsDiv (real_of_int (highestRankValue cards)) 200)
         \<and> \<bar>strength h - (0.1 + real_of_int (highestRankValue cards) / 200)\<bar> < 1 / 2 ^ 54)"
proof -
  let ?s = "sortByRankDesc rank cards"
  obtain h where h: "evaluateHand T cards = Inr h"
    using evaluateHand_returns by blast
  from evaluateHand_cases [OF assms h]
  consider (sf) "checkStraightFlush T ?s = Inr (Some h)"
    | (four) "checkFourOfAKind T ?s = Some h"
    | (full) "checkFullHouse T ?s = Some h"
    | (flush) "checkFlush T ?s = Inr (Some h)"
    | (straight) "checkStraight ?s = Some h"
    | (three) "checkThreeOfAKind T ?s = Some h"
    | (two) "checkTwoPair T ?s = Some h"
    | (pair) "checkPair T ?s = Some h"
    | (high) "checkHighCard ?s = Inr h"
    by blast
  then have "handType h = ''Royal Flush'' \<and> strength h = 1.0
     \<or> handType h = ''Straight Flush'' \<and> strength h = 0.95
     \<or> handType h = ''Four of a Kind'' \<and> strength h = 0.9
     \<or> handType h = ''Full House'' \<and> strength h = 0.85
     \<or> handType h = ''Flush'' \<and> strength h = 0.75
     \<or> handType h = ''Straight''
         \<and> (if kickers h = [FIVE]
              then strength h = 0.6 \<and> {ACE, TWO, THREE, FOUR, FIVE} \<subseteq> rank ` set cards
              else strength h = 0.65)
     \<or> handType h = ''Three of a Kind'' \<and> strength h = 0.55
     \<or> handType h = ''Two Pair'' \<and> strength h = 0.45
     \<or> handType h = ''Pair''
         \<and> (\<exists>r. occurrences rank r cards = 2
                \<and> (\<forall>r'. occurrences rank r' cards = 2 \<longrightarrow> r' = r)
                \<and> strength h = jsAdd 0.3 (jsDiv (real_of_int (getRankValue r)) 100)
                \<and> \<bar>strength h - (0.3 + real_of_int (getRankValue r) / 100)\<bar> < 1 / 2 ^ 54)
     \<or> handType h = ''High Card''
         \<and> strength h = jsAdd 0.1 (jsDiv (real_of_int (highestRankValue cards)) 200)
         \<and> \<bar>strength h - (0.1 + real_of_int (highestRankValue cards) / 200)\<bar> < 1 / 2 ^ 54"
  proof cases
    case sf
    then show ?thesis using checkStraightFlush_shape [OF sf] by auto
  next
    case four
    then show ?thesis using checkFourOfAKind_shape [OF four] by simp
  next
    case full
    then show ?thesis using checkFullHouse_shape [OF full] by simp
  next
    case flush
    then show ?thesis using checkFlush_shape [OF flush] by simp
  next
    case straight
    then show ?thesis
      using checkStraight_shape [OF straight] checkStraight_strength [OF straight]
      by (simp split: if_splits)
  next
    case three
    then show ?thesis using checkThreeOfAKind_shape [OF three] by simp
  next
    case two
    then show ?thesis using checkTwoPair_shape [OF two] by simp
  next
    case pair
    have type: "handType h = ''Pair''"
      using checkPair_shape [OF pair] by simp
    obtain r where r: "occurrences rank r cards = 2"
      and str: "strength h = jsAdd 0.3 (jsDiv (real_of_int (getRankValue r)) 100)"
      using checkPair_strength [OF pair] by auto
    have near: "\<bar>strength h - (0.3 + real_of_int (getRankValue r) / 100)\<bar> < 1 / 2 ^ 54"
      unfolding str by (rule pair_strength_near)
    have "checkTwoPair T ?s = None"
      using evaluateHand_Pair [OF assms h type] by simp
    then have "\<forall>r'. occurrences rank r' cards = 2 \<longrightarrow> r' = r"
      using checkTwoPair_None [of T ?s r] r by simp
    with type r str near show ?thesis by blast
  next
    case high
    obtain r where r: "highestRankValue cards = getRankValue r"
      and str: "strength h = jsAdd 0.1 (jsDiv (real_of_int (highestRankValue cards)) 200)"
      using checkHighCard_strength [OF high] by auto
    have "\<bar>strength h - (0.1 + real_of_int (highestRankValue cards) / 200)\<bar> < 1 / 2 ^ 54"
      unfolding str r by (rule high_card_strength_near)
    with str show ?thesis
      using checkHighCard_shape [OF high] by simp
  qed
  with h show ?thesis by blast
qed

lemma pairHand_value:
  "evaluateHand faceTypes pairHand = Inr \<lparr>handType = ''Pair'', handRank = 2,
     kickers = [ACE, JACK, SEVEN], description = ''Pair of 9s'',
     strength = 3512807709348987 / 2 ^ 53\<rparr>"
  by (simp add: evaluation pairHand_def pair_of_nines_double)

theorem strength_of_category_witness:
  "5 \<le> length pairHand
   \<and> evaluateHand faceTypes pairHand = Inr \<lparr>handType = ''Pair'', handRank = 2,
        kickers = [ACE, JACK, SEVEN], description = ''Pair of 9s'',
        strength = 3512807709348987 / 2 ^ 53\<rparr>
   \<and> occurrences rank NINE pairHand = 2
   \<and> (3512807709348987 / 2 ^ 53 :: real) = jsAdd 0.3 (jsDiv (real_of_int (getRankValue NINE)) 100)
   \<and> \<bar>3512807709348987 / 2 ^ 53 - (0.3 + real_of_int (getRankValue NINE) / 100)\<bar>
        < (1 / 2 ^ 54 :: real)"
  using strength_of_category [of pairHand faceTypes] pairHand_value pair_of_nines_double
  by (simp add: pairHand_def occurrences_def cardOf_def)

section \<open>Two Pair\<close>

text \<open>
  Claim C10. For every input of at least five cards whose evaluation is Two Pair
  (\<open>handRank\<close> 3), the strength is 0.45 and the kickers hold at most one rank, a rank
  that occurs once among the cards: the ranks of the two pairs are not among the kickers.
\<close>

theorem two_pair_strength_kickers:
  assumes "5 \<le> length cards" and "evaluateHand T cards = Inr h" and "handRank h = 3"
  shows "handType h = ''Two Pair'' \<and> strength h = 0.45 \<and> length (kickers h) \<le> 1
    \<and> (\<forall>k \<in> set (kickers h). occurrences rank k cards = 1)"
proof -
  have "checkTwoPair T (sortByRankDesc rank cards) = Some h"
    using evaluateHand_cases [OF assms(1,2)] assms(3)
    by (auto dest: checkStraightFlush_shape checkFourOfAKind_shape checkFullHouse_shape
        checkFlush_shape checkStraight_shape checkThreeOfAKind_shape checkPair_shape
        checkHighCard_shape)
  then show ?thesis
    using checkTwoPair_shape [of T "sortByRankDesc rank cards" h]
      checkTwoPair_kickers [of T "sortByRankDesc rank cards" h]
    by simp
qed

lemma twoPairHand_value:
  "evaluateHand faceTypes twoPairHand = Inr \<lparr>handType = ''Two Pair'', handRank = 3,
     kickers = [SEVEN], description = ''Two Pair, 9s and 6s'', strength = 0.45\<rparr>"
  by (simp add: evaluation twoPairHand_def)

theorem two_pair_strength_kickers_witness:
  "5 \<le> length twoPairHand
   \<and> evaluateHand faceTypes twoPairHand = Inr \<lparr>handType = ''Two Pair'', handRank = 3,
        kickers = [SEVEN], description = ''Two Pair, 9s and 6s'', strength = 0.45\<rparr>
   \<and> occurrences rank SEVEN twoPairHand = 1
   \<and> occurrences rank NINE twoPairHand = 2
   \<and> occurrences rank SIX twoPairHand = 2"
  using two_pair_strength_kickers [OF _ twoPairHand_value] twoPairHand_value
  by (simp add: twoPairHand_def occurrences_def cardOf_def)

section \<open>The wheel in one suit\<close>

text \<open>
  Claim C1 says that the ace to five of clubs evaluate to a Straight of strength 0.60 and
  to no higher category. The straight-flush check comes first and succeeds: the result is
  a Royal Flush of strength 1.
\<close>

theorem wheel_of_clubs_not_a_straight:
  "evaluateHand faceTypes wheelClubs = Inr \<lparr>handType = ''Royal Flush'', handRank = 10,
     kickers = [ACE], description = ''Royal Flush'', strength = 1\<rparr>"
  by (simp add: evaluation wheelClubs_def)

text \<open>
  Claim C1, amended. For the ace to five of clubs, \<open>checkStraight\<close> alone finds the wheel,
  a five-high Straight of strength 0.60; \<open>evaluateHand\<close> returns a category of the
  straight-flush check (\<open>handRank\<close> 9 or 10, strength at least 0.95), not Straight,
  because the five cards share a suit and that check comes first.
\<close>

theorem wheel_of_clubs_evaluation:
  "checkStraight (sortByRankDesc rank wheelClubs) =
     Some \<lparr>handType = ''Straight'', handRank = 5, kickers = [FIVE],
       description = ''Straight, Five high (Wheel)'', strength = 0.6\<rparr>
   \<and> (\<exists>h. evaluateHand T wheelClubs = Inr h \<and> (handRank h = 9 \<or> handRank h = 10)
         \<and> 0.95 \<le> strength h \<and> handType h \<noteq> ''Straight'')"
  by (simp add: evaluation wheelClubs_def)

section \<open>A flush and a straight of different cards\<close>

text \<open>
  Claim C2: \<open>evaluateHand\<close> returns Straight Flush or Royal Flush only when a single suit
  holds five consecutive ranks, and Royal Flush exactly when that straight is ace-high.
  \<open>checkStraightFlush\<close> asks for a flush and for a straight, not for a straight within the
  flush: ace, king, queen, jack and nine of hearts with the ten of clubs and the two of
  diamonds are a Royal Flush to \<open>evaluateHand\<close>, and no suit holds five consecutive ranks.
\<close>

theorem flush_and_straight_apart:
  "evaluateHand faceTypes brokenRoyal = Inr \<lparr>handType = ''Royal Flush'', handRank = 10,
     kickers = [ACE], description = ''Royal Flush'', strength = 1\<rparr>
   \<and> \<not> specStraightFlush brokenRoyal"
  by (simp add: evaluation brokenRoyal_def specStraightFlush_def suitHolds_def)

text \<open>
  The label Royal Flush follows the highest card of the whole hand, not the high card of
  the straight: a nine-high straight flush with the ace of its suit is a Royal Flush to
  \<open>evaluateHand\<close>.
\<close>

lemma nine_high_called_royal:
  "evaluateHand faceTypes aceOverNineHigh = Inr \<lparr>handType = ''Royal Flush'', handRank = 10,
     kickers = [ACE], description = ''Royal Flush'', strength = 1\<rparr>"
  by (simp add: evaluation aceOverNineHigh_def)

section \<open>Full House\<close>

text \<open>
  What \<open>checkFullHouse\<close> does recognise: a rank that occurs exactly three times and a rank
  that occurs exactly twice, when the two checks before it find nothing.
\<close>

lemma find_exists: "\<exists>x \<in> set xs. P x \<Longrightarrow> \<exists>y. find P xs = Some y"
  by (cases "find P xs") (auto simp: find_None_iff)

lemma checkFullHouse_exact:
  assumes "occurrences rank r3 s = 3" and "occurrences rank r2 s = 2"
  shows "\<exists>h. checkFullHouse T s = Some h"
proof -
  have "r3 \<in> set (objectKeys (rankStr T) (getRankCounts s))"
    "r2 \<in> set (objectKeys (rankStr T) (getRankCounts s))"
    using assms by (simp_all add: keys_getRankCounts)
  moreover have "countAt (getRankCounts s) r3 = Some 3" "countAt (getRankCounts s) r2 = Some 2"
    using assms by (simp_all add: countAt_getRankCounts)
  ultimately obtain a b where
    "find (\<lambda>r. countAt (getRankCounts s) r = Some 3) (objectKeys (rankStr T) (getRankCounts s)) = Some a"
    "find (\<lambda>r. countAt (getRankCounts s) r = Some 2) (objectKeys (rankStr T) (getRankCounts s)) = Some b"
    using find_exists [of "objectKeys (rankStr T) (getRankCounts s)" "\<lambda>r. countAt (getRankCounts s) r = Some 3"]
      find_exists [of "objectKeys (rankStr T) (getRankCounts s)" "\<lambda>r. countAt (getRankCounts s) r = Some 2"]
    by blast
  then show ?thesis
    by (simp add: checkFullHouse_def Let_def)
qed

lemma full_house_exact:
  assumes "5 \<le> length cards"
    and "checkStraightFlush T (sortByRankDesc rank cards) = Inr None"
    and "checkFourOfAKind T (sortByRankDesc rank cards) = None"
    and "occurrences rank r3 cards = 3" and "occurrences rank r2 cards = 2"
  shows "\<exists>h. evaluateHand T cards = Inr h \<and> handType h = ''Full House'' \<and> handRank h = 7
    \<and> strength h = 0.85"
proof -
  obtain h where h: "checkFullHouse T (sortByRankDesc rank cards) = Some h"
    using checkFullHouse_exact [of r3 "sortByRankDesc rank cards" r2 T] assms(4,5) by auto
  then have "evaluateHand T cards = Inr h"
    using assms(1-3) by (simp add: evaluateHand_def Let_def)
  with checkFullHouse_shape [OF h] show ?thesis by simp
qed


text \<open>
  Claim C5: with no straight flush and no four of a kind, a rank that occurs exactly three
  times and another rank that occurs at least twice make a Full House of strength 0.85.
  Three twos and three fives with a king are such a hand, and \<open>evaluateHand\<close> returns
  Three of a Kind of strength 0.55, since \<open>checkFullHouse\<close> looks for a count of exactly
  two. (The example of the claim, with two fives, is a Full House: \<open>fullHouseHand_value\<close>.)
\<close>

theorem two_triples_not_full_house:
  "evaluateHand faceTypes twoTripsHand = Inr \<lparr>handType = ''Three of a Kind'', handRank = 4,
     kickers = [KING], description = ''Three 2s'', strength = 0.55\<rparr>
   \<and> occurrences rank TWO twoTripsHand = 3
   \<and> occurrences rank FIVE twoTripsHand = 3
   \<and> checkStraightFlush faceTypes (sortByRankDesc rank twoTripsHand) = Inr None
   \<and> checkFourOfAKind faceTypes (sortByRankDesc rank twoTripsHand) = None"
  by (simp add: evaluation twoTripsHand_def)

lemma fullHouseHand_value:
  "evaluateHand faceTypes fullHouseHand = Inr \<lparr>handType = ''Full House'', handRank = 7,
     kickers = [TWO, FIVE], description = ''Full House, 2s over 5s'', strength = 0.85\<rparr>"
  by (simp add: evaluation fullHouseHand_def)

section \<open>Two calls\<close>

text \<open>
  A check in the store returns what the check on the content of its array returns, and
  it leaves the arrays of the store as they are; so does the chain of the checks.
\<close>

lemma readsOnlyD:
  assumes "readsOnly a c p" and "a < length st"
  obtains new where "c st = (p (st ! a), st @ new)"
  using assms unfolding readsOnly_def by (metis prod.collapse)

lemma readsOnlyI:
  assumes "\<And>st. a < length st \<Longrightarrow> \<exists>new. c st = (p (st ! a), st @ new)"
  shows "readsOnly a c p"
  unfolding readsOnly_def using assms by fastforce

lemma readsOnly_reading: "readsOnly a (reading f a) f"
  by (simp add: readsOnly_def reading_def)

lemma readsOnly_checkFlushAt: "readsOnly a (checkFlushAt T a) (checkFlush T)"
  by (rule readsOnlyI)
    (simp add: checkFlushAt_def checkFlush_def Let_def filterArray_def
      newArray_def nth_append split: option.splits list.splits)

lemma readsOnly_checkStraightFlushAt:
  "readsOnly a (checkStraightFlushAt T a) (checkStraightFlush T)"
proof (rule readsOnlyI)
  fix st :: Store
  assume a: "a < length st"
  obtain new where flush: "checkFlushAt T a st = (checkFlush T (st ! a), st @ new)"
    using readsOnly_checkFlushAt a by (rule readsOnlyD)
  have same: "(st @ new) ! a = st ! a"
    using a by (simp add: nth_append)
  show "\<exists>new. checkStraightFlushAt T a st = (checkStraightFlush T (st ! a), st @ new)"
    by (simp add: checkStraightFlushAt_def checkStraightFlush_def reading_def Let_def flush same
        split: sum.splits list.splits)
qed

lemma firstOfAt_readsOnly:
  assumes "list_all2 (readsOnly a) cs ps" and "readsOnly a final last_p"
  shows "readsOnly a (firstOfAt cs final) (\<lambda>xs. firstOf (map (\<lambda>p. p xs) ps) (last_p xs))"
  using assms(1)
proof (induction cs ps rule: list_all2_induct)
  case Nil
  then show ?case using assms(2) by (simp add: readsOnly_def)
next
  case (Cons c cs p ps)
  show ?case
  proof (rule readsOnlyI)
    fix st :: Store
    assume a: "a < length st"
    obtain new where c: "c st = (p (st ! a), st @ new)"
      using Cons.hyps(1) a by (rule readsOnlyD)
    have a1: "a < length (st @ new)" and same: "(st @ new) ! a = st ! a"
      using a by (simp_all add: nth_append)
    obtain new' where rest: "firstOfAt cs final (st @ new)
        = (firstOf (map (\<lambda>p. p ((st @ new) ! a)) ps) (last_p ((st @ new) ! a)), (st @ new) @ new')"
      using Cons.IH a1 by (rule readsOnlyD)
    show "\<exists>new. firstOfAt (c # cs) final st
        = (firstOf (map (\<lambda>p. p (st ! a)) (p # ps)) (last_p (st ! a)), st @ new)"
      using rest unfolding same
      by (simp add: c split: sum.splits option.splits)
  qed
qed

lemma evaluateHandAt_refines:
  assumes "a < length st"
  obtains new where "evaluateHandAt T a st = (evaluateHand T (st ! a), st @ new)"
proof (cases "length (st ! a) < 5")
  case True
  then have "evaluateHandAt T a st = (evaluateHand T (st ! a), st @ [])"
    by (simp add: evaluateHandAt_def evaluateHand_def)
  then show ?thesis
    by (rule that)
next
  case False
  let ?copy = "length st"
  let ?sorted = "sortByRankDesc rank (st ! a)"
  let ?st2 = "st @ [?sorted]"
  let ?run = "firstOfAt
     [checkStraightFlushAt T ?copy,
      reading (\<lambda>cs. Inr (checkFourOfAKind T cs)) ?copy,
      reading (\<lambda>cs. Inr (checkFullHouse T cs)) ?copy,
      checkFlushAt T ?copy,
      reading (\<lambda>cs. Inr (checkStraight cs)) ?copy,
      reading (\<lambda>cs. Inr (checkThreeOfAKind T cs)) ?copy,
      reading (\<lambda>cs. Inr (checkTwoPair T cs)) ?copy,
      reading (\<lambda>cs. Inr (checkPair T cs)) ?copy]
     (reading checkHighCard ?copy)"
  let ?chain = "\<lambda>xs. firstOf (map (\<lambda>p. p xs)
       [checkStraightFlush T, \<lambda>cs. Inr (checkFourOfAKind T cs), \<lambda>cs. Inr (checkFullHouse T cs),
        checkFlush T, \<lambda>cs. Inr (checkStraight cs), \<lambda>cs. Inr (checkThreeOfAKind T cs),
        \<lambda>cs. Inr (checkTwoPair T cs), \<lambda>cs. Inr (checkPair T cs)]) (checkHighCard xs)"
  have eq: "evaluateHandAt T a st = ?run ?st2"
    using False
    by (simp add: evaluateHandAt_def spread_def newArray_def sortInPlace_def Let_def)
  have reads: "readsOnly ?copy ?run ?chain"
    by (intro firstOfAt_readsOnly)
      (simp_all add: readsOnly_reading readsOnly_checkFlushAt readsOnly_checkStraightFlushAt)
  have "?copy < length ?st2"
    by simp
  with reads obtain new where "?run ?st2 = (?chain (?st2 ! ?copy), ?st2 @ new)"
    by (rule readsOnlyD)
  then have "evaluateHandAt T a st = (evaluateHand T (st ! a), st @ (?sorted # new))"
    using False eq by (simp add: evaluateHand_def Let_def)
  then show ?thesis
    by (rule that)
qed

text \<open>
  A hand with the ten out of place and five hearts: the call adds the sorted copy and the
  cards of the flush to the store.
\<close>

lemma brokenRoyal_call:
  "evaluateHandAt faceTypes 0 [brokenRoyal] =
     (Inr \<lparr>handType = ''Royal Flush'', handRank = 10, kickers = [ACE],
          description = ''Royal Flush'', strength = 1\<rparr>,
      [brokenRoyal,
       [cardOf ACE HEARTS, cardOf KING HEARTS, cardOf QUEEN HEARTS, cardOf JACK HEARTS,
         cardOf TEN CLUBS, cardOf NINE HEARTS, cardOf TWO DIAMONDS],
       [cardOf ACE HEARTS, cardOf KING HEARTS, cardOf QUEEN HEARTS, cardOf JACK HEARTS,
         cardOf NINE HEARTS]])"
  by (simp add: evaluateHandAt_def spread_def sortInPlace_def newArray_def filterArray_def
      checkStraightFlushAt_def checkFlushAt_def reading_def evaluation brokenRoyal_def)

lemma brokenRoyal_second_call:
  "evaluateHandAt faceTypes 0
     [brokenRoyal,
       [cardOf ACE HEARTS, cardOf KING HEARTS, cardOf QUEEN HEARTS, cardOf JACK HEARTS,
         cardOf TEN CLUBS, cardOf NINE HEARTS, cardOf TWO DIAMONDS],
       [cardOf ACE HEARTS, cardOf KING HEARTS, cardOf QUEEN HEARTS, cardOf JACK HEARTS,
         cardOf NINE HEARTS]] =
     (Inr \<lparr>handType = ''Royal Flush'', handRank = 10, kickers = [ACE],
          description = ''Royal Flush'', strength = 1\<rparr>,
      [brokenRoyal,
       [cardOf ACE HEARTS, cardOf KING HEARTS, cardOf QUEEN HEARTS, cardOf JACK HEARTS,
         cardOf TEN CLUBS, cardOf NINE HEARTS, cardOf TWO DIAMONDS],
       [cardOf ACE HEARTS, cardOf KING HEARTS, cardOf QUEEN HEARTS, cardOf JACK HEARTS,
         cardOf NINE HEARTS],
       [cardOf ACE HEARTS, cardOf KING HEARTS, cardOf QUEEN HEARTS, cardOf JACK HEARTS,
         cardOf TEN CLUBS, cardOf NINE HEARTS, cardOf TWO DIAMONDS],
       [cardOf ACE HEARTS, cardOf KING HEARTS, cardOf QUEEN HEARTS, cardOf JACK HEARTS,
         cardOf NINE HEARTS]])"
  by (simp add: evaluateHandAt_def spread_def sortInPlace_def newArray_def filterArray_def
      checkStraightFlushAt_def checkFlushAt_def reading_def evaluation brokenRoyal_def)

text \<open>
  Claim C9. \<open>evaluateHand\<close> is deterministic: a call returns the evaluation (or the
  error) that the content of its array determines, and it leaves that array as it was; a
  second call on the same array, in the store that the first call left, returns the same
  evaluation, with the same category, rank, kickers, description and strength.
\<close>

theorem evaluateHand_twice_same:
  assumes "cards < length st"
    and "evaluateHandAt T cards st = (first, st1)"
    and "evaluateHandAt T cards st1 = (second, st2)"
  shows "second = first \<and> st1 ! cards = st ! cards \<and> st2 ! cards = st ! cards
    \<and> first = evaluateHand T (st ! cards)"
proof -
  obtain new where 1: "evaluateHandAt T cards st = (evaluateHand T (st ! cards), st @ new)"
    using assms(1) by (rule evaluateHandAt_refines)
  have c1: "cards < length (st @ new)" and same: "(st @ new) ! cards = st ! cards"
    using assms(1) by (simp_all add: nth_append)
  obtain new' where 2: "evaluateHandAt T cards (st @ new)
      = (evaluateHand T ((st @ new) ! cards), (st @ new) @ new')"
    using c1 by (rule evaluateHandAt_refines)
  show ?thesis
    using 1 2 assms same c1 by (auto simp: nth_append)
qed

theorem evaluateHand_twice_same_witness:
  "(0 :: nat) < length [brokenRoyal]
   \<and> evaluateHandAt faceTypes 0 [brokenRoyal] =
     (Inr \<lparr>handType = ''Royal Flush'', handRank = 10, kickers = [ACE],
          description = ''Royal Flush'', strength = 1\<rparr>,
      [brokenRoyal,
       [cardOf ACE HEARTS, cardOf KING HEARTS, cardOf QUEEN HEARTS, cardOf JACK HEARTS,
         cardOf TEN CLUBS, cardOf NINE HEARTS, cardOf TWO DIAMONDS],
       [cardOf ACE HEARTS, cardOf KING HEARTS, cardOf QUEEN HEARTS, cardOf JACK HEARTS,
         cardOf NINE HEARTS]])
   \<and> evaluateHandAt faceTypes 0
     [brokenRoyal,
       [cardOf ACE HEARTS, cardOf KING HEARTS, cardOf QUEEN HEARTS, cardOf JACK HEARTS,
         cardOf TEN CLUBS, cardOf NINE HEARTS, cardOf TWO DIAMONDS],
       [cardOf ACE HEARTS, cardOf KING HEARTS, cardOf QUEEN HEARTS, cardOf JACK HEARTS,
         cardOf NINE HEARTS]] =
     (Inr \<lparr>handType = ''Royal Flush'', handRank = 10, kickers = [ACE],
          description = ''Royal Flush'', strength = 1\<rparr>,
      [brokenRoyal,
       [cardOf ACE HEARTS, cardOf KING HEARTS, cardOf QUEEN HEARTS, cardOf JACK HEARTS,
         cardOf TEN CLUBS, cardOf NINE HEARTS, cardOf TWO DIAMONDS],
       [cardOf ACE HEARTS, cardOf KING HEARTS, cardOf QUEEN HEARTS, cardOf JACK HEARTS,
         cardOf NINE HEARTS],
       [cardOf ACE HEARTS, cardOf KING HEARTS, cardOf QUEEN HEARTS, cardOf JACK HEARTS,
         cardOf TEN CLUBS, cardOf NINE HEARTS, cardOf TWO DIAMONDS],
       [cardOf ACE HEARTS, cardOf KING HEARTS, cardOf QUEEN HEARTS, cardOf JACK HEARTS,
         cardOf NINE HEARTS]])
   \<and> evaluateHand faceTypes brokenRoyal =
       Inr \<lparr>handType = ''Royal Flush'', handRank = 10, kickers = [ACE],
          description = ''Royal Flush'', strength = 1\<rparr>"
  using evaluateHand_twice_same [OF _ brokenRoyal_call brokenRoyal_second_call]
    brokenRoyal_call brokenRoyal_second_call
  by simp

section \<open>The amount of a raise\<close>

text \<open>
  Claim C7 says that the amount of the raise is at least
  \<open>max(currentBet*2, currentBet+50)\<close> and at most \<open>playerChips\<close>. With a bet of 100 and
  150 chips the amount is 150, below the minimum of 200.
\<close>

theorem raise_below_minimum:
  "handleRaise 100 150 100 = (RAISE, 150) \<and> 150 < minRaise 100"
  by (simp add: handleRaise_def minRaise_def maxRaise_def)

text \<open>
  Claim C7, amended. For every \<open>currentBet\<close> of at least 0, every \<open>playerChips\<close> and
  every value of the slider, the amount of the raise is never above \<open>playerChips\<close>; it is at
  least \<open>max(currentBet*2, currentBet+50)\<close> whenever the player's chips reach that
  minimum, and it is \<open>playerChips\<close> (all of them) when they do not.
\<close>

theorem raise_amount_bounds:
  assumes "0 \<le> tableBet"
    and "handleRaise tableBet playerChips raiseAmount = (action, amount)"
  shows "action = RAISE \<and> amount \<le> playerChips
    \<and> (minRaise tableBet \<le> playerChips \<longrightarrow> minRaise tableBet \<le> amount)
    \<and> (playerChips < minRaise tableBet \<longrightarrow> amount = playerChips)"
  using assms by (auto simp: handleRaise_def maxRaise_def Let_def)

theorem raise_amount_bounds_witness:
  "(0 :: int) \<le> 100
   \<and> handleRaise 100 1000 120 = (RAISE, 200) \<and> (200 :: int) \<le> 1000
   \<and> minRaise 100 \<le> 1000 \<and> minRaise 100 \<le> 200
   \<and> handleRaise 100 150 120 = (RAISE, 150) \<and> (150 :: int) < minRaise 100"
  using raise_amount_bounds [of 100 1000 120 RAISE 200]
    raise_amount_bounds [of 100 150 120 RAISE 150]
  by (simp add: handleRaise_def minRaise_def maxRaise_def)

section \<open>Chips in play\<close>

lemma sum_chips_update:
  "i < length ps \<Longrightarrow>
     sum_list (map chips (ps[i := p])) = sum_list (map chips ps) - chips (ps ! i) + chips p"
proof (induction ps arbitrary: i)
  case Nil
  then show ?case by simp
next
  case (Cons q qs)
  then show ?case by (cases i) auto
qed

lemma length_players_updateCurrent [simp]:
  "length (players (updateCurrent f s)) = length (players s)"
  by (simp add: updateCurrent_def)

lemma chipsInPlay_updateCurrent:
  assumes "activePlayerIndex s < length (players s)"
  shows "chipsInPlay (updateCurrent f s)
    = chipsInPlay s - chips (currentPlayer s) + chips (f (currentPlayer s))"
  using assms by (simp add: chipsInPlay_def updateCurrent_def currentPlayer_def sum_chips_update)

lemma chipsInPlay_moveToPot:
  assumes "activePlayerIndex s < length (players s)"
  shows "chipsInPlay (moveToPot n s) = chipsInPlay s"
  using assms
  by (simp add: chipsInPlay_def moveToPot_def updateCurrent_def currentPlayer_def sum_chips_update)

lemma chipsInPlay_transition [simp]: "chipsInPlay (transition s) = chipsInPlay s"
  by (simp add: chipsInPlay_def transition_def reveal_def newRound_def comp_def)

lemma pay_each:
  assumes "\<forall>i \<in> set ws. i < length ps"
  shows "length (foldr (\<lambda>i ps. ps[i := (ps ! i)\<lparr>chips := chips (ps ! i) + c\<rparr>]) ws ps) = length ps
    \<and> sum_list (map chips (foldr (\<lambda>i ps. ps[i := (ps ! i)\<lparr>chips := chips (ps ! i) + c\<rparr>]) ws ps))
        = sum_list (map chips ps) + c * int (length ws)"
  using assms
proof (induction ws)
  case Nil
  then show ?case by simp
next
  case (Cons w ws)
  then show ?case
    by (simp add: sum_chips_update algebra_simps)
qed

lemma length_pay_each [simp]:
  "length (foldr (\<lambda>i ps. ps[i := (ps ! i)\<lparr>chips := chips (ps ! i) + c\<rparr>]) ws ps) = length ps"
  by (induction ws) simp_all

lemma length_players_awardPot [simp]: "length (players (awardPot ws s)) = length (players s)"
  by (simp add: awardPot_def Let_def split: list.splits)

lemma chipsInPlay_awardPot:
  assumes "ws \<noteq> []" and "\<forall>i \<in> set ws. i < length (players s)"
  shows "chipsInPlay (awardPot ws s) = chipsInPlay s"
proof -
  obtain w rest where ws: "ws = w # rest"
    using assms(1) by (cases ws) auto
  let ?share = "pot s div int (length ws)"
  let ?paid = "foldr (\<lambda>i ps. ps[i := (ps ! i)\<lparr>chips := chips (ps ! i) + ?share\<rparr>]) ws (players s)"
  have paid: "length ?paid = length (players s)"
    "sum_list (map chips ?paid) = sum_list (map chips (players s)) + ?share * int (length ws)"
    using pay_each [OF assms(2), of ?share] by simp_all
  have "w < length ?paid"
    using assms(2) ws paid(1) by simp
  then have "sum_list (map chips (?paid[w := (?paid ! w)\<lparr>chips := chips (?paid ! w) + pot s mod int (length ws)\<rparr>]))
    = sum_list (map chips (players s)) + ?share * int (length ws) + pot s mod int (length ws)"
    by (simp add: sum_chips_update paid(2))
  also have "\<dots> = sum_list (map chips (players s)) + pot s"
    by (simp add: algebra_simps)
  finally show ?thesis
    by (simp add: chipsInPlay_def awardPot_def Let_def ws)
qed

lemma activePlayers_bound: "i \<in> set (activePlayers s) \<Longrightarrow> i < length (players s)"
  by (simp add: activePlayers_def)

lemma showdownWinners_subset: "set (showdownWinners rules s) \<subseteq> set (activePlayers s)"
  by (auto simp: showdownWinners_def Let_def)

lemma showdownWinners_nonempty:
  assumes "activePlayers s \<noteq> []"
  shows "showdownWinners rules s \<noteq> []"
proof -
  let ?key = "\<lambda>i. handKey (evaluate rules (holeCards (players s ! i) @ communityCards s))"
  have "Max (set (map ?key (activePlayers s))) \<in> set (map ?key (activePlayers s))"
    using assms by (intro Max_in) auto
  then obtain i where "i \<in> set (activePlayers s)" "?key i = Max (set (map ?key (activePlayers s)))"
    by auto
  then have "i \<in> set (showdownWinners rules s)"
    by (simp add: showdownWinners_def Let_def)
  then show ?thesis by auto
qed

lemma activePlayers_transition [simp]: "activePlayers (transition s) = activePlayers s"
  by (auto simp: activePlayers_def transition_def reveal_def newRound_def intro: filter_cong)

lemma length_players_transition [simp]: "length (players (transition s)) = length (players s)"
  by (simp add: transition_def reveal_def newRound_def)

lemma handComplete_transition [simp]: "handComplete (transition s) = handComplete s"
  by (simp add: transition_def reveal_def newRound_def)

lemma activePlayerIndex_transition [simp]:
  "activePlayerIndex (transition s) = activePlayerIndex s"
  by (simp add: transition_def reveal_def newRound_def)

lemma handComplete_awardPot [simp]: "handComplete (awardPot ws s)"
  by (simp add: awardPot_def Let_def)

lemma activePlayerIndex_awardPot [simp]: "activePlayerIndex (awardPot ws s) = activePlayerIndex s"
  by (simp add: awardPot_def Let_def)

lemma settle_conserves:
  "handComplete s \<or> activePlayers s \<noteq> [] \<Longrightarrow> chipsInPlay (settle rules s) = chipsInPlay s"
proof (induction rules s rule: settle.induct)
  case (1 rules s)
  show ?case
  proof (cases "handComplete s \<or> \<not> roundClosed s \<or> phase s = SHOWDOWN")
    case True
    then show ?thesis by (subst settle.simps) simp
  next
    case False
    with "1.prems" have act: "activePlayers s \<noteq> []" by simp
    show ?thesis
    proof (cases "phase s = RIVER")
      case True
      have "showdownWinners rules (transition s) \<noteq> []"
        using act by (simp add: showdownWinners_nonempty)
      moreover have "\<forall>i \<in> set (showdownWinners rules (transition s)). i < length (players (transition s))"
        using showdownWinners_subset [of rules "transition s"] activePlayers_bound [of _ "transition s"]
        by auto
      ultimately have "chipsInPlay (awardPot (showdownWinners rules (transition s)) (transition s))
        = chipsInPlay s"
        by (simp add: chipsInPlay_awardPot)
      then show ?thesis
        using False True by (subst settle.simps) simp
    next
      case notRiver: False
      have "chipsInPlay (settle rules (transition s)) = chipsInPlay s"
        using "1.IH" [OF False notRiver] act by simp
      then show ?thesis
        using False notRiver by (subst settle.simps) simp
    qed
  qed
qed

lemma settle_ready:
  "tableReady s \<Longrightarrow> tableReady (settle rules s)"
proof (induction rules s rule: settle.induct)
  case (1 rules s)
  show ?case
  proof (cases "handComplete s \<or> \<not> roundClosed s \<or> phase s = SHOWDOWN")
    case True
    then show ?thesis using "1.prems" by (subst settle.simps) simp
  next
    case False
    show ?thesis
    proof (cases "phase s = RIVER")
      case True
      have "tableReady (awardPot (showdownWinners rules (transition s)) (transition s))"
        using "1.prems" by (simp add: tableReady_def)
      then show ?thesis
        using False True by (subst settle.simps) simp
    next
      case notRiver: False
      have "tableReady (transition s)"
        using "1.prems" by (simp add: tableReady_def)
      then have "tableReady (settle rules (transition s))"
        using "1.IH" [OF False notRiver] by simp
      then show ?thesis
        using False notRiver by (subst settle.simps) simp
    qed
  qed
qed

lemma find_Some_member: "find P xs = Some x \<Longrightarrow> x \<in> set xs \<and> P x"
  by (induction xs) (auto split: if_splits)

lemma nextPlayer_bound:
  assumes "activePlayerIndex s < length (players s)"
  shows "nextPlayer s < length (players s)"
proof (cases "find (\<lambda>j. isActive (players s ! j))
    (map (\<lambda>k. (activePlayerIndex s + k) mod length (players s)) [1..<length (players s) + 1])")
  case None
  then show ?thesis using assms by (simp add: nextPlayer_def Let_def)
next
  case (Some j)
  from find_Some_member [OF this]
  obtain k where "j = (activePlayerIndex s + k) mod length (players s)"
    by (auto simp del: upt_Suc)
  moreover have "0 < length (players s)"
    using assms by linarith
  ultimately have "j < length (players s)"
    by simp
  with Some show ?thesis by (simp add: nextPlayer_def Let_def)
qed

lemma activePlayers_index [simp]: "activePlayers (s\<lparr>activePlayerIndex := i\<rparr>) = activePlayers s"
  by (simp add: activePlayers_def)

lemma chipsInPlay_index [simp]: "chipsInPlay (s\<lparr>activePlayerIndex := i\<rparr>) = chipsInPlay s"
  by (simp add: chipsInPlay_def)

lemma finishTurn_conserves:
  "handComplete s \<or> activePlayers s \<noteq> [] \<Longrightarrow> chipsInPlay (finishTurn rules s) = chipsInPlay s"
  using settle_conserves [of "s\<lparr>activePlayerIndex := nextPlayer s\<rparr>" rules]
  by (simp add: finishTurn_def)

lemma finishTurn_ready:
  assumes "tableReady s"
  shows "tableReady (finishTurn rules s)"
proof -
  have "tableReady (s\<lparr>activePlayerIndex := nextPlayer s\<rparr>)"
    using assms nextPlayer_bound [of s] by (simp add: tableReady_def)
  then show ?thesis
    by (simp add: finishTurn_def settle_ready)
qed

lemma filter_split_length:
  "length (filter P xs) = length (filter (\<lambda>x. P x \<and> x \<noteq> k) xs) + length (filter (\<lambda>x. P x \<and> x = k) xs)"
  by (induction xs) auto

lemma filter_eq_upt: "length (filter (\<lambda>x. P x \<and> x = k) [0..<n]) \<le> 1"
  by (induction n) auto

lemma isActive_nth_update:
  "j < length ps \<Longrightarrow> isActive (ps[i := q] ! j) = (if i = j then isActive q else isActive (ps ! j))"
  by auto

lemma activePlayers_fold:
  assumes "activePlayerIndex s < length (players s)"
  shows "length (activePlayers s) \<le> length (activePlayers (updateCurrent (\<lambda>p. p\<lparr>isActive := False\<rparr>) s)) + 1"
proof -
  let ?k = "activePlayerIndex s"
  have "activePlayers (updateCurrent (\<lambda>p. p\<lparr>isActive := False\<rparr>) s)
    = filter (\<lambda>i. isActive (players s ! i) \<and> i \<noteq> ?k) [0..<length (players s)]"
    by (auto simp: activePlayers_def updateCurrent_def isActive_nth_update intro!: filter_cong
        split: if_splits)
  then show ?thesis
    using filter_split_length [of "\<lambda>i. isActive (players s ! i)" "[0..<length (players s)]" ?k]
      filter_eq_upt [of "\<lambda>i. isActive (players s ! i)" ?k "length (players s)"]
    by (simp add: activePlayers_def)
qed

lemma available_not_complete: "action \<in> set (getAvailableActions s) \<Longrightarrow> \<not> handComplete s"
  by (auto simp: getAvailableActions_def split: if_splits)

lemma activePlayers_hasActed [simp]:
  "activePlayers (updateCurrent (\<lambda>p. p\<lparr>hasActed := b\<rparr>) s) = activePlayers s"
  by (auto simp: activePlayers_def updateCurrent_def currentPlayer_def isActive_nth_update
      intro!: filter_cong split: if_splits)

lemma activePlayers_moveToPot [simp]: "activePlayers (moveToPot n s) = activePlayers s"
  by (auto simp: activePlayers_def moveToPot_def updateCurrent_def currentPlayer_def
      isActive_nth_update intro!: filter_cong split: if_splits)

lemma isActive_mark:
  "i < length ps \<Longrightarrow>
     isActive (map (\<lambda>(j, p). p\<lparr>hasActed := (j = k)\<rparr>) (enumerate 0 ps) ! i) = isActive (ps ! i)"
  by (simp add: nth_enumerate_eq)

lemma activePlayers_raiseTo [simp]: "activePlayers (raiseTo amount s) = activePlayers s"
proof -
  let ?s1 = "(moveToPot (amount - bet (currentPlayer s)) s)\<lparr>currentBet := amount\<rparr>"
  have "activePlayers (raiseTo amount s) = activePlayers ?s1"
    unfolding raiseTo_def Let_def activePlayers_def
    by (rule filter_cong) (simp_all add: nth_enumerate_eq)
  also have "\<dots> = activePlayers (moveToPot (amount - bet (currentPlayer s)) s)"
    by (simp add: activePlayers_def)
  finally show ?thesis by simp
qed

lemma chipsInPlay_raiseTo:
  assumes "activePlayerIndex s < length (players s)"
  shows "chipsInPlay (raiseTo amount s) = chipsInPlay s"
proof -
  have "map chips (map (\<lambda>(j, p). p\<lparr>hasActed := (j = k)\<rparr>) (enumerate n ps)) = map chips ps"
    for k n and ps :: "Player list"
    by (induction ps arbitrary: n) simp_all
  then show ?thesis
    using chipsInPlay_moveToPot [OF assms, of "amount - bet (currentPlayer s)"]
    by (simp add: raiseTo_def Let_def chipsInPlay_def)
qed

lemma ready_simps [simp]:
  "activePlayerIndex (updateCurrent f s) = activePlayerIndex s"
  "handComplete (updateCurrent f s) = handComplete s"
  "activePlayerIndex (moveToPot n s) = activePlayerIndex s"
  "handComplete (moveToPot n s) = handComplete s"
  "length (players (moveToPot n s)) = length (players s)"
  "activePlayerIndex (raiseTo amount s) = activePlayerIndex s"
  "handComplete (raiseTo amount s) = handComplete s"
  "length (players (raiseTo amount s)) = length (players s)"
  by (simp_all add: updateCurrent_def moveToPot_def raiseTo_def Let_def)

lemma processPlayerAction_step:
  assumes "tableReady s" and "processPlayerAction rules action amount s = Inr s'"
  shows "tableReady s' \<and> chipsInPlay s' = chipsInPlay s"
proof -
  have legal: "action \<in> set (getAvailableActions s)"
    using assms(2) by (auto simp: processPlayerAction_def split: if_splits)
  then have open_hand: "\<not> handComplete s"
    by (rule available_not_complete)
  with assms(1) have idx: "activePlayerIndex s < length (players s)"
    and two: "2 \<le> length (activePlayers s)"
    by (simp_all add: tableReady_def)
  then have some: "activePlayers s \<noteq> []" by auto
  show ?thesis
  proof (cases action)
    case FOLD
    let ?s1 = "updateCurrent (\<lambda>p. p\<lparr>isActive := False\<rparr>) s"
    have same: "chipsInPlay ?s1 = chipsInPlay s"
      using chipsInPlay_updateCurrent [OF idx, of "\<lambda>p. p\<lparr>isActive := False\<rparr>"] by simp
    have left: "1 \<le> length (activePlayers ?s1)"
      using activePlayers_fold [OF idx] two by simp
    show ?thesis
    proof (cases "\<exists>w. activePlayers ?s1 = [w]")
      case True
      then obtain w where w: "activePlayers ?s1 = [w]" by blast
      then have s': "s' = awardPot [w] ?s1"
        using assms(2) legal FOLD by (simp add: processPlayerAction_def Let_def)
      have "w < length (players ?s1)"
        using activePlayers_bound [of w ?s1] w by simp
      then show ?thesis
        using s' same idx by (simp add: chipsInPlay_awardPot tableReady_def)
    next
      case False
      then have s': "s' = finishTurn rules ?s1"
        using assms(2) legal FOLD
        by (auto simp: processPlayerAction_def Let_def split: list.splits)
      have "length (activePlayers ?s1) \<noteq> 1"
        using False by (cases "activePlayers ?s1") auto
      with left have "2 \<le> length (activePlayers ?s1)" by simp
      then have "tableReady ?s1" "activePlayers ?s1 \<noteq> []"
        using idx by (auto simp: tableReady_def)
      then show ?thesis
        using s' same by (simp add: finishTurn_ready finishTurn_conserves)
    qed
  next
    case CHECK
    let ?s1 = "updateCurrent (\<lambda>p. p\<lparr>hasActed := True\<rparr>) s"
    have s': "s' = finishTurn rules ?s1"
      using assms(2) legal CHECK by (simp add: processPlayerAction_def)
    have "chipsInPlay ?s1 = chipsInPlay s"
      using chipsInPlay_updateCurrent [OF idx, of "\<lambda>p. p\<lparr>hasActed := True\<rparr>"] by simp
    moreover have "tableReady ?s1"
      using idx two by (simp add: tableReady_def)
    ultimately show ?thesis
      using s' some by (simp add: finishTurn_ready finishTurn_conserves)
  next
    case CALL
    let ?s0 = "moveToPot (min (currentBet s - bet (currentPlayer s)) (chips (currentPlayer s))) s"
    let ?s1 = "updateCurrent (\<lambda>p. p\<lparr>hasActed := True\<rparr>) ?s0"
    have s': "s' = finishTurn rules ?s1"
      using assms(2) legal CALL by (simp add: processPlayerAction_def)
    have idx0: "activePlayerIndex ?s0 < length (players ?s0)"
      using idx by simp
    have "chipsInPlay ?s1 = chipsInPlay s"
      using chipsInPlay_updateCurrent [OF idx0, of "\<lambda>p. p\<lparr>hasActed := True\<rparr>"]
        chipsInPlay_moveToPot [OF idx]
      by simp
    moreover have "tableReady ?s1"
      using idx two by (simp add: tableReady_def)
    ultimately show ?thesis
      using s' some by (simp add: finishTurn_ready finishTurn_conserves)
  next
    case RAISE
    have s': "s' = finishTurn rules (raiseTo amount s)"
      using assms(2) legal RAISE by (simp add: processPlayerAction_def split: if_splits)
    have "tableReady (raiseTo amount s)"
      using idx two by (simp add: tableReady_def)
    then show ?thesis
      using s' some chipsInPlay_raiseTo [OF idx, of amount]
      by (simp add: finishTurn_ready finishTurn_conserves)
  qed
qed

text \<open>
  Claim C8. For every sequence of legal actions that \<open>processPlayerAction\<close> applies within
  one hand, starting from a state of a hand in play, the sum of the players' chips plus the
  pot stays what it was at the start.
\<close>

theorem chips_conserved:
  assumes "tableReady s" and "playHand rules s actions = Inr s'"
  shows "chipsInPlay s' = chipsInPlay s"
  using assms
proof (induction actions arbitrary: s)
  case Nil
  then show ?case by simp
next
  case (Cons a rest)
  obtain action amount where a: "a = (action, amount)"
    by (cases a)
  with Cons.prems(2) obtain s1 where
    step: "processPlayerAction rules action amount s = Inr s1"
    and rest: "playHand rules s1 rest = Inr s'"
    by (auto split: sum.splits)
  from processPlayerAction_step [OF Cons.prems(1) step]
  have "tableReady s1" "chipsInPlay s1 = chipsInPlay s"
    by simp_all
  with Cons.IH [OF _ rest] show ?case by simp
qed

lemmas engine =
  houseRules_def openingState_def seat_def processPlayerAction_def getAvailableActions_def
  currentPlayer_def updateCurrent_def moveToPot_def activePlayers_def nextPlayer_def
  roundClosed_def finishTurn_def raiseTo_def awardPot_def cardOf_def transition_def
  newRound_def reveal_def settle.simps enumerate_eq_zip showdownWinners_def handKey_def
  sourceEvaluate_def

lemma playedToShowdown_value: "playHand houseRules openingState playedToShowdown = Inr shownDown"
  by (simp add: playedToShowdown_def shownDown_def engine evaluation)

theorem chips_conserved_witness:
  "tableReady openingState
   \<and> playHand houseRules openingState playedToShowdown = Inr shownDown
   \<and> chipsInPlay shownDown = chipsInPlay openingState
   \<and> chipsInPlay openingState = 3000"
  using chips_conserved [of openingState houseRules playedToShowdown shownDown]
    playedToShowdown_value
  by (simp add: tableReady_def activePlayers_def chipsInPlay_def openingState_def seat_def)

end
